theory Spec2Isabelle
  imports Complex_Main
begin

section \<open>The maze game trainer: grid, movement, combat and episodes\<close>

text \<open>
  A shallow embedding of \<^verbatim>\<open>src/trainer.py\<close>. Python integers are \<^typ>\<open>int\<close>,
  the level grid is a list of rows of cell codes, exceptions are values of
  \<^verbatim>\<open>py_error\<close> on the left of a sum, and the fitness of a genome is the list of
  the adjustments made to it, in the order in which the code makes them.
\<close>

subsection \<open>Constants of the module\<close>

definition GAMES_PER_GENERATION :: int where "GAMES_PER_GENERATION = 10"
definition MAX_PLAYER_MOVES :: int where "MAX_PLAYER_MOVES = 100"
definition PLAYER_STARTING_HEALTH :: int where "PLAYER_STARTING_HEALTH = 100"

definition ENEMY_SHOOT_DAMAGE :: int where "ENEMY_SHOOT_DAMAGE = 20"
definition ENEMY_HIT_DAMAGE :: int where "ENEMY_HIT_DAMAGE = 50"

definition WALL_CELL_STATE_CODE :: int where "WALL_CELL_STATE_CODE = 1"
definition PLAYER_CELL_STATE_CODE :: int where "PLAYER_CELL_STATE_CODE = 2"
definition ENEMY_CELL_STATE_CODE :: int where "ENEMY_CELL_STATE_CODE = 3"

subsection \<open>Exceptions and list indexing\<close>

datatype py_error = IndexError | ValueError | ZeroDivisionError

text \<open>Sequencing of computations that may raise: the first exception wins.\<close>

definition bind_e :: "py_error + 'a \<Rightarrow> ('a \<Rightarrow> py_error + 'b) \<Rightarrow> py_error + 'b" where
  "bind_e r f = (case r of Inl e \<Rightarrow> Inl e | Inr v \<Rightarrow> f v)"

text \<open>Python's \<^verbatim>\<open>xs[i]\<close>: a negative index counts from the end, and an index
  outside the list raises IndexError.\<close>

definition py_index :: "'a list \<Rightarrow> int \<Rightarrow> py_error + 'a" where
  "py_index xs i =
     (if 0 \<le> i \<and> i < int (length xs) then Inr (xs ! nat i)
      else if - int (length xs) \<le> i \<and> i < 0 then Inr (xs ! nat (int (length xs) + i))
      else Inl IndexError)"

text \<open>Python's \<^verbatim>\<open>a and b\<close> on a boolean \<^verbatim>\<open>a\<close>: \<^verbatim>\<open>b\<close> is evaluated, and may raise,
  only when \<^verbatim>\<open>a\<close> holds.\<close>

definition py_and :: "bool \<Rightarrow> py_error + bool \<Rightarrow> py_error + bool" where
  "py_and a b = (if a then b else Inr False)"

subsection \<open>The trainer and its level grid\<close>

record trainer =
  game_grid :: "int list list"
  game_grid_height :: int
  game_grid_width :: int
  player_start :: "(int \<times> int) option"
  enemy_start_positions :: "(int \<times> int) list"

text \<open>\<^verbatim>\<open>find_start_positions\<close>: the two nested \<^verbatim>\<open>enumerate\<close> loops. The player
  start is an attribute that stays unset (\<open>None\<close>) when no cell holds the player code;
  a later player cell overwrites an earlier one.\<close>

fun find_in_row ::
  "int \<Rightarrow> int \<Rightarrow> int list \<Rightarrow> (int \<times> int) option \<times> (int \<times> int) list
     \<Rightarrow> (int \<times> int) option \<times> (int \<times> int) list" where
  "find_in_row y x [] st = st"
| "find_in_row y x (cell_state # row) (p, es) =
     find_in_row y (x + 1) row
       (if cell_state = PLAYER_CELL_STATE_CODE then (Some (x, y), es)
        else if cell_state = ENEMY_CELL_STATE_CODE then (p, es @ [(x, y)])
        else (p, es))"

fun find_in_rows ::
  "int \<Rightarrow> int list list \<Rightarrow> (int \<times> int) option \<times> (int \<times> int) list
     \<Rightarrow> (int \<times> int) option \<times> (int \<times> int) list" where
  "find_in_rows y [] st = st"
| "find_in_rows y (row # rows) st = find_in_rows (y + 1) rows (find_in_row y 0 row st)"

definition find_start_positions ::
  "int list list \<Rightarrow> (int \<times> int) option \<times> (int \<times> int) list" where
  "find_start_positions g = find_in_rows 0 g (None, [])"

text \<open>\<^verbatim>\<open>Trainer.__init__\<close>, from the loaded grid on: the height is the number of
  rows, the width is the length of row 0 (IndexError when there is no row), then the
  start positions are searched. Nothing else is checked.\<close>

definition Trainer_init :: "int list list \<Rightarrow> py_error + trainer" where
  "Trainer_init g =
     bind_e (py_index g 0) (\<lambda>row0.
       Inr \<lparr> game_grid = g,
             game_grid_height = int (length g),
             game_grid_width = int (length row0),
             player_start = fst (find_start_positions g),
             enemy_start_positions = snd (find_start_positions g) \<rparr>)"

text \<open>\<^verbatim>\<open>self.game_grid[y][x]\<close> and the test \<^verbatim>\<open>self.game_grid[y][x] != WALL_CELL_STATE_CODE\<close>.\<close>

definition grid_cell :: "trainer \<Rightarrow> int \<Rightarrow> int \<Rightarrow> py_error + int" where
  "grid_cell t x y = bind_e (py_index (game_grid t) y) (\<lambda>row. py_index row x)"

definition not_wall :: "trainer \<Rightarrow> int \<Rightarrow> int \<Rightarrow> py_error + bool" where
  "not_wall t x y = bind_e (grid_cell t x y) (\<lambda>c. Inr (c \<noteq> WALL_CELL_STATE_CODE))"

subsection \<open>Movement\<close>

text \<open>\<^verbatim>\<open>get_new_position\<close>: the \<^verbatim>\<open>if\<close>/\<^verbatim>\<open>elif\<close> chain on the two movement
  amounts, in the order of the source (right, left, down, up).\<close>

definition move_if ::
  "py_error + bool \<Rightarrow> int \<times> int \<Rightarrow> int \<times> int \<Rightarrow> py_error + (int \<times> int)" where
  "move_if c new old = bind_e c (\<lambda>b. Inr (if b then new else old))"

definition get_new_position ::
  "trainer \<Rightarrow> int \<Rightarrow> int \<Rightarrow> int \<Rightarrow> int \<Rightarrow> py_error + (int \<times> int)" where
  "get_new_position t current_x current_y horizontal_movement vertical_movement =
     (if horizontal_movement = 1 then
        move_if (py_and (current_x < game_grid_width t - 1)
                        (not_wall t (current_x + 1) current_y))
                (current_x + 1, current_y) (current_x, current_y)
      else if horizontal_movement = - 1 then
        move_if (py_and (current_x > 0) (not_wall t (current_x - 1) current_y))
                (current_x - 1, current_y) (current_x, current_y)
      else if vertical_movement = 1 then
        (if current_x = game_grid_width t - 1 \<and> current_y < game_grid_height t - 1
         then Inr (current_x, current_y + 1)
         else move_if (py_and (current_y < game_grid_height t - 1)
                              (not_wall t current_x (current_y + 1)))
                      (current_x, current_y + 1) (current_x, current_y))
      else if vertical_movement = - 1 then
        move_if (py_and (current_y > 0) (not_wall t current_x (current_y - 1)))
                (current_x, current_y - 1) (current_x, current_y)
      else Inr (current_x, current_y))"

text \<open>\<^verbatim>\<open>get_valid_moves\<close>: the current cell, then left, right, up, the escape move
  from the bottom right corner, and down, each appended when its test holds.\<close>

definition get_valid_moves :: "trainer \<Rightarrow> int \<Rightarrow> int \<Rightarrow> py_error + (int \<times> int) list" where
  "get_valid_moves t x y =
     bind_e (py_and (x > 0) (not_wall t (x - 1) y)) (\<lambda>left.
     bind_e (py_and (x < game_grid_width t - 1) (not_wall t (x + 1) y)) (\<lambda>right.
     bind_e (py_and (y > 0) (not_wall t x (y - 1))) (\<lambda>up.
     bind_e (py_and (y < game_grid_height t - 1) (not_wall t x (y + 1))) (\<lambda>down.
       Inr ([(x, y)]
            @ (if left then [(x - 1, y)] else [])
            @ (if right then [(x + 1, y)] else [])
            @ (if up then [(x, y - 1)] else [])
            @ (if x = game_grid_width t - 1 \<and> y = game_grid_height t - 1
               then [(x, y + 1)] else [])
            @ (if down then [(x, y + 1)] else []))))))"

subsection \<open>Well-formed levels and positions\<close>

text \<open>A rectangular, non-empty grid whose recorded width and height are its own, and a
  position inside it.\<close>

definition rectangular :: "trainer \<Rightarrow> bool" where
  "rectangular t \<longleftrightarrow>
     game_grid_height t = int (length (game_grid t)) \<and>
     0 < game_grid_height t \<and> 0 < game_grid_width t \<and>
     list_all (\<lambda>row. int (length row) = game_grid_width t) (game_grid t)"

definition in_bounds :: "trainer \<Rightarrow> int \<times> int \<Rightarrow> bool" where
  "in_bounds t p \<longleftrightarrow>
     0 \<le> fst p \<and> fst p < game_grid_width t \<and> 0 \<le> snd p \<and> snd p < game_grid_height t"

definition is_wall :: "trainer \<Rightarrow> int \<times> int \<Rightarrow> bool" where
  "is_wall t p \<longleftrightarrow> grid_cell t (fst p) (snd p) = Inr WALL_CELL_STATE_CODE"

subsection \<open>Combat\<close>

text \<open>\<^verbatim>\<open>math.sqrt((player_x - enemy_x) ** 2 + (player_y - enemy_y) ** 2)\<close>, taken over
  the reals.\<close>

definition distance_to_player :: "int \<Rightarrow> int \<Rightarrow> int \<Rightarrow> int \<Rightarrow> real" where
  "distance_to_player player_x player_y enemy_x enemy_y =
     sqrt (real_of_int ((player_x - enemy_x)\<^sup>2 + (player_y - enemy_y)\<^sup>2))"

text \<open>\<^verbatim>\<open>range(a, b)\<close> and \<^verbatim>\<open>all(test(v) for v in ...)\<close>: the generator is consumed
  from the left and stops at the first value that fails the test, so a later cell
  is never read.\<close>

definition py_range :: "int \<Rightarrow> int \<Rightarrow> int list" where
  "py_range a b = [a..b - 1]"

fun py_all :: "(int \<Rightarrow> py_error + bool) \<Rightarrow> int list \<Rightarrow> py_error + bool" where
  "py_all f [] = Inr True"
| "py_all f (v # vs) = bind_e (f v) (\<lambda>b. if b then py_all f vs else Inr False)"

text \<open>One axis of the \<^verbatim>\<open>SHOOT_PLAYER\<close> case: \<^verbatim>\<open>if enemy <= player and all(...)\<close>
  then damage, \<^verbatim>\<open>elif enemy > player and all(...)\<close> then damage. The coordinate
  \<open>e\<close> is the enemy's and \<open>p\<close> the player's on that axis; \<open>clear\<close> tests one cell
  of the line.\<close>

definition shoot_axis ::
  "(int \<Rightarrow> py_error + bool) \<Rightarrow> int \<Rightarrow> int \<Rightarrow> int \<Rightarrow> py_error + int" where
  "shoot_axis clear e p player_health =
     bind_e (py_and (e \<le> p) (py_all clear (py_range e p))) (\<lambda>forward.
       if forward then Inr (player_health - ENEMY_SHOOT_DAMAGE)
       else bind_e (py_and (e > p) (py_all clear (py_range p e))) (\<lambda>backward.
         Inr (if backward then player_health - ENEMY_SHOOT_DAMAGE else player_health)))"

definition shoot_player ::
  "trainer \<Rightarrow> int \<Rightarrow> int \<Rightarrow> int \<Rightarrow> int \<Rightarrow> int \<Rightarrow> py_error + int" where
  "shoot_player t enemy_x enemy_y player_x player_y player_health =
     (if distance_to_player player_x player_y enemy_x enemy_y \<le> 3 then
        bind_e (if enemy_y = player_y
                then shoot_axis (\<lambda>x. not_wall t x enemy_y) enemy_x player_x player_health
                else Inr player_health) (\<lambda>health1.
          if enemy_x = player_x
          then shoot_axis (\<lambda>y. not_wall t enemy_x y) enemy_y player_y health1
          else Inr health1)
      else Inr player_health)"

definition hit_player :: "int \<Rightarrow> int \<Rightarrow> int \<Rightarrow> int \<Rightarrow> int \<Rightarrow> int" where
  "hit_player enemy_x enemy_y player_x player_y player_health =
     (if distance_to_player player_x player_y enemy_x enemy_y \<le> 1
      then player_health - ENEMY_HIT_DAMAGE else player_health)"

subsection \<open>Decisions\<close>

datatype EnemyAction =
  MOVE_LEFT | MOVE_RIGHT | MOVE_UP | MOVE_DOWN | STAND_STILL | SHOOT_PLAYER | HIT_PLAYER

text \<open>\<^verbatim>\<open>EnemyAction(decision)\<close>: the member with that value, ValueError when there
  is none.\<close>

definition EnemyAction_of :: "int \<Rightarrow> py_error + EnemyAction" where
  "EnemyAction_of d =
     (if d = 0 then Inr MOVE_LEFT
      else if d = 1 then Inr MOVE_RIGHT
      else if d = 2 then Inr MOVE_UP
      else if d = 3 then Inr MOVE_DOWN
      else if d = 4 then Inr STAND_STILL
      else if d = 5 then Inr SHOOT_PLAYER
      else if d = 6 then Inr HIT_PLAYER
      else Inl ValueError)"

text \<open>The selection loop over \<^verbatim>\<open>enumerate(output)\<close>; the pair is
  \<^verbatim>\<open>(largest_value, decision)\<close>, started at \<open>(-1, -1)\<close>.\<close>

fun select_loop :: "int \<Rightarrow> real list \<Rightarrow> real \<times> int \<Rightarrow> real \<times> int" where
  "select_loop i [] (largest_value, decision) = (largest_value, decision)"
| "select_loop i (v # vs) (largest_value, decision) =
     select_loop (i + 1) vs
       (if v > largest_value then (v, i) else (largest_value, decision))"

definition select_decision :: "real list \<Rightarrow> int" where
  "select_decision output = snd (select_loop 0 output (- 1, - 1))"

definition decide :: "real list \<Rightarrow> py_error + EnemyAction" where
  "decide output = EnemyAction_of (select_decision output)"

text \<open>The \<^verbatim>\<open>match\<close> statement: the enemy's new position and the player's new health.\<close>

definition perform ::
  "trainer \<Rightarrow> EnemyAction \<Rightarrow> int \<Rightarrow> int \<Rightarrow> int \<Rightarrow> int \<Rightarrow> int
     \<Rightarrow> py_error + ((int \<times> int) \<times> int)" where
  "perform t decision enemy_x enemy_y player_x player_y player_health =
     (case decision of
        MOVE_LEFT \<Rightarrow>
          bind_e (get_new_position t enemy_x enemy_y (- 1) 0) (\<lambda>p. Inr (p, player_health))
      | MOVE_RIGHT \<Rightarrow>
          bind_e (get_new_position t enemy_x enemy_y 1 0) (\<lambda>p. Inr (p, player_health))
      | MOVE_UP \<Rightarrow>
          bind_e (get_new_position t enemy_x enemy_y 0 (- 1)) (\<lambda>p. Inr (p, player_health))
      | MOVE_DOWN \<Rightarrow>
          bind_e (get_new_position t enemy_x enemy_y 0 1) (\<lambda>p. Inr (p, player_health))
      | STAND_STILL \<Rightarrow> Inr ((enemy_x, enemy_y), player_health)
      | SHOOT_PLAYER \<Rightarrow>
          bind_e (shoot_player t enemy_x enemy_y player_x player_y player_health)
            (\<lambda>h. Inr ((enemy_x, enemy_y), h))
      | HIT_PLAYER \<Rightarrow>
          Inr ((enemy_x, enemy_y), hit_player enemy_x enemy_y player_x player_y player_health))"

subsection \<open>Fitness\<close>

text \<open>Every statement that changes \<^verbatim>\<open>genome.fitness\<close> is recorded: the \<open>+0.1\<close> for
  an enemy that moved, the subtraction of the distance over \<open>MAX_PLAYER_MOVES\<^sup>2\<close>
  after an enemy's action (the distance is kept), and the adjustment after the
  trajectory (its signed amount is kept).\<close>

datatype fitness_change = Shaping | Proximity real | Terminal int

fun change_value :: "fitness_change \<Rightarrow> real" where
  "change_value Shaping = 1 / 10"
| "change_value (Proximity d) = - (d / real_of_int (MAX_PLAYER_MOVES\<^sup>2))"
| "change_value (Terminal a) = real_of_int a"

definition fitness_after :: "real \<Rightarrow> fitness_change list \<Rightarrow> real" where
  "fitness_after fitness cs = fold (\<lambda>c f. f + change_value c) cs fitness"

subsection \<open>Episodes\<close>

record episode =
  player_health :: int
  enemy_positions :: "(int \<times> int) list"
  moves_made :: int
  changes :: "fitness_change list"

text \<open>The network inputs of one enemy: true division, which raises on a zero width
  or height.\<close>

definition network_inputs ::
  "trainer \<Rightarrow> nat \<Rightarrow> int \<Rightarrow> int \<Rightarrow> episode \<Rightarrow> py_error + real list" where
  "network_inputs t enemy_index player_x player_y s =
     (if length (enemy_positions s) = 0 \<or> game_grid_width t = 0 \<or> game_grid_height t = 0
      then Inl ZeroDivisionError
      else Inr ([ (real enemy_index + 1) / real (length (enemy_positions s)),
                  real_of_int (player_x + 1) / real_of_int (game_grid_width t),
                  real_of_int (player_y + 1) / real_of_int (game_grid_height t),
                  real_of_int (player_health s) / real_of_int PLAYER_STARTING_HEALTH ]
                @ concat (map (\<lambda>(x, y). [ real_of_int (x + 1) / real_of_int (game_grid_width t),
                                          real_of_int (y + 1) / real_of_int (game_grid_height t) ])
                              (enemy_positions s))))"

text \<open>The body of the loop over the enemies, for the enemy at \<open>enemy_index\<close>; the
  policy stands for \<^verbatim>\<open>neural_network.activate\<close>.\<close>

definition enemy_turn ::
  "trainer \<Rightarrow> (real list \<Rightarrow> real list) \<Rightarrow> int \<times> int \<Rightarrow> nat \<Rightarrow> episode \<Rightarrow> py_error + episode" where
  "enemy_turn t policy player enemy_index s =
     bind_e (py_index (enemy_positions s) (int enemy_index)) (\<lambda>(enemy_x, enemy_y).
     bind_e (network_inputs t enemy_index (fst player) (snd player) s) (\<lambda>inputs.
     bind_e (decide (policy inputs)) (\<lambda>decision.
     bind_e (perform t decision enemy_x enemy_y (fst player) (snd player) (player_health s))
       (\<lambda>(new_position, new_health).
          Inr (s \<lparr> player_health := new_health,
                   enemy_positions := (enemy_positions s)[enemy_index := new_position],
                   changes := changes s
                     @ (if (enemy_x, enemy_y) \<noteq> new_position then [Shaping] else [])
                     @ [Proximity (distance_to_player (fst player) (snd player)
                                     (fst new_position) (snd new_position))] \<rparr>)))))"

text \<open>The loop over the enemies, left at the first enemy after whose action the
  health is not positive.\<close>

fun enemy_loop ::
  "trainer \<Rightarrow> (real list \<Rightarrow> real list) \<Rightarrow> int \<times> int \<Rightarrow> nat list \<Rightarrow> episode
     \<Rightarrow> py_error + episode" where
  "enemy_loop t policy player [] s = Inr s"
| "enemy_loop t policy player (enemy_index # rest) s =
     bind_e (enemy_turn t policy player enemy_index s) (\<lambda>s'.
       if player_health s' \<le> 0 then Inr s' else enemy_loop t policy player rest s')"

text \<open>The loop over the player's moves, with the way it was left: at the escape
  coordinate, at a health that is not positive, or at the end of the moves.\<close>

datatype outcome = Escaped | Defeated | MoveLimit

fun moves_loop ::
  "trainer \<Rightarrow> (real list \<Rightarrow> real list) \<Rightarrow> (int \<times> int) list \<Rightarrow> episode
     \<Rightarrow> py_error + (outcome \<times> episode)" where
  "moves_loop t policy [] s = Inr (MoveLimit, s)"
| "moves_loop t policy ((player_x, player_y) # rest) s =
     (let s1 = s \<lparr> moves_made := moves_made s + 1 \<rparr> in
      if player_x = game_grid_width t - 1 \<and> player_y = game_grid_height t
      then Inr (Escaped, s1)
      else bind_e (enemy_loop t policy (player_x, player_y)
                     [0 ..< length (enemy_positions s1)] s1) (\<lambda>s2.
             if player_health s2 \<le> 0 then Inr (Defeated, s2)
             else moves_loop t policy rest s2))"

definition initial_episode :: "trainer \<Rightarrow> fitness_change list \<Rightarrow> episode" where
  "initial_episode t cs =
     \<lparr> player_health = PLAYER_STARTING_HEALTH,
       enemy_positions = enemy_start_positions t,
       moves_made = 0,
       changes = cs \<rparr>"

definition terminal_adjustment :: "episode \<Rightarrow> int" where
  "terminal_adjustment s =
     (if player_health s > 0
      then - ((MAX_PLAYER_MOVES - moves_made s)\<^sup>2 + (PLAYER_STARTING_HEALTH - player_health s))
      else (MAX_PLAYER_MOVES - moves_made s)\<^sup>2 + (PLAYER_STARTING_HEALTH - player_health s))"

text \<open>One trajectory: the episode, then the fitness calculation. The changes made to
  the fitness before this trajectory are \<open>cs\<close>.\<close>

definition play_trajectory ::
  "trainer \<Rightarrow> (real list \<Rightarrow> real list) \<Rightarrow> fitness_change list \<Rightarrow> (int \<times> int) list
     \<Rightarrow> py_error + (outcome \<times> episode)" where
  "play_trajectory t policy cs moves =
     bind_e (moves_loop t policy moves (initial_episode t cs)) (\<lambda>(out, s).
       Inr (out, s \<lparr> changes := changes s @ [Terminal (terminal_adjustment s)] \<rparr>))"

text \<open>\<^verbatim>\<open>play_game_no_display\<close>: every trajectory in turn, on the same fitness.\<close>

fun play_trajectories ::
  "trainer \<Rightarrow> (real list \<Rightarrow> real list) \<Rightarrow> (int \<times> int) list list \<Rightarrow> fitness_change list
     \<Rightarrow> py_error + fitness_change list" where
  "play_trajectories t policy [] cs = Inr cs"
| "play_trajectories t policy (moves # player_moves) cs =
     bind_e (play_trajectory t policy cs moves) (\<lambda>(out, s).
       play_trajectories t policy player_moves (changes s))"

definition play_game_no_display ::
  "trainer \<Rightarrow> (real list \<Rightarrow> real list) \<Rightarrow> (int \<times> int) list list
     \<Rightarrow> py_error + fitness_change list" where
  "play_game_no_display t policy player_moves = play_trajectories t policy player_moves []"

text \<open>\<^verbatim>\<open>eval_genomes_no_display\<close>: the fitness starts at 0.\<close>

definition eval_genomes_no_display ::
  "trainer \<Rightarrow> (real list \<Rightarrow> real list) \<Rightarrow> (int \<times> int) list list \<Rightarrow> py_error + real" where
  "eval_genomes_no_display t policy player_moves =
     bind_e (play_game_no_display t policy player_moves) (\<lambda>cs. Inr (fitness_after 0 cs))"

subsection \<open>Example levels\<close>

definition level_a :: trainer where
  "level_a = \<lparr> game_grid = [[2, 0], [0, 0]], game_grid_height = 2, game_grid_width = 2,
      player_start = Some (0, 0), enemy_start_positions = [] \<rparr>"

definition level_b :: trainer where
  "level_b = \<lparr> game_grid = [[2, 0], [0, 1]], game_grid_height = 2, game_grid_width = 2,
      player_start = Some (0, 0), enemy_start_positions = [] \<rparr>"

definition level_c :: trainer where
  "level_c = \<lparr> game_grid = [[2, 1], [0, 0]], game_grid_height = 2, game_grid_width = 2,
      player_start = Some (0, 0), enemy_start_positions = [] \<rparr>"

definition level_d :: trainer where
  "level_d = \<lparr> game_grid = [[2, 0, 0], [3, 1, 0], [0, 0, 0]],
      game_grid_height = 3, game_grid_width = 3,
      player_start = Some (0, 0), enemy_start_positions = [(0, 1)] \<rparr>"

definition level_e :: trainer where
  "level_e = \<lparr> game_grid = [[2, 0, 0], [0, 3, 0], [0, 0, 0]],
      game_grid_height = 3, game_grid_width = 3,
      player_start = Some (0, 0), enemy_start_positions = [(1, 1)] \<rparr>"

definition level_f :: trainer where
  "level_f = \<lparr> game_grid = [[2, 0, 0], [0, 3, 3], [0, 0, 0]],
      game_grid_height = 3, game_grid_width = 3,
      player_start = Some (0, 0), enemy_start_positions = [(1, 1), (2, 1)] \<rparr>"

text \<open>A policy whose output is largest at index 4, the value of \<^verbatim>\<open>STAND_STILL\<close>, and
  one whose output is largest at index 6, the value of \<^verbatim>\<open>HIT_PLAYER\<close>.\<close>

definition stand_policy :: "real list \<Rightarrow> real list" where
  "stand_policy inputs = [0, 0, 0, 0, 1, 0, 0]"

definition hit_policy :: "real list \<Rightarrow> real list" where
  "hit_policy inputs = [0, 0, 0, 0, 0, 0, 1]"

subsection \<open>Reading the record of the fitness changes\<close>

text \<open>Every action of an enemy that runs to its end subtracts one distance from the
  fitness, so the distances recorded count the actions of the enemies.\<close>

fun is_proximity :: "fitness_change \<Rightarrow> bool" where
  "is_proximity (Proximity d) = True"
| "is_proximity c = False"

fun is_terminal :: "fitness_change \<Rightarrow> bool" where
  "is_terminal (Terminal a) = True"
| "is_terminal c = False"

definition enemy_actions :: "fitness_change list \<Rightarrow> nat" where
  "enemy_actions cs = length (filter is_proximity cs)"

definition escape_coordinate :: "trainer \<Rightarrow> int \<times> int" where
  "escape_coordinate t = (game_grid_width t - 1, game_grid_height t)"

text \<open>A level whose grid is rectangular and whose enemies start inside it; a policy
  whose selected decision is always the value of an action; a trajectory whose
  positions are inside the grid or the escape coordinate.\<close>

definition well_formed :: "trainer \<Rightarrow> bool" where
  "well_formed t \<longleftrightarrow> rectangular t \<and> list_all (in_bounds t) (enemy_start_positions t)"

definition decides :: "(real list \<Rightarrow> real list) \<Rightarrow> bool" where
  "decides policy \<longleftrightarrow> (\<forall>inputs. \<exists>a. decide (policy inputs) = Inr a)"

definition trajectory_ok :: "trainer \<Rightarrow> (int \<times> int) list \<Rightarrow> bool" where
  "trajectory_ok t moves \<longleftrightarrow>
     list_all (\<lambda>p. in_bounds t p \<or> p = escape_coordinate t) moves"

section \<open>Properties\<close>

subsection \<open>Basic facts\<close>

lemma bind_e_Inl [simp]: "bind_e (Inl e) f = Inl e"
  by (simp add: bind_e_def)

lemma bind_e_Inr [simp]: "bind_e (Inr v) f = f v"
  by (simp add: bind_e_def)

lemma py_and_simps [simp]: "py_and True b = b" "py_and False b = Inr False"
  by (simp_all add: py_and_def)

lemma py_index_in_range:
  "0 \<le> i \<Longrightarrow> i < int (length xs) \<Longrightarrow> py_index xs i = Inr (xs ! nat i)"
  by (simp add: py_index_def)

lemma grid_cell_in_bounds:
  assumes "rectangular t" "in_bounds t (x, y)"
  shows "grid_cell t x y = Inr (game_grid t ! nat y ! nat x)"
proof -
  from assms have y: "0 \<le> y" "y < int (length (game_grid t))"
    by (simp_all add: rectangular_def in_bounds_def)
  then have "game_grid t ! nat y \<in> set (game_grid t)" by simp
  with assms have "int (length (game_grid t ! nat y)) = game_grid_width t"
    by (simp add: rectangular_def list_all_iff)
  with assms have x: "0 \<le> x" "x < int (length (game_grid t ! nat y))"
    by (simp_all add: in_bounds_def)
  show ?thesis
    by (simp add: grid_cell_def py_index_in_range y x)
qed

lemma not_wall_in_bounds:
  assumes "rectangular t" "in_bounds t (x, y)"
  shows "not_wall t x y = Inr (\<not> is_wall t (x, y))"
  using grid_cell_in_bounds [OF assms] by (simp add: not_wall_def is_wall_def)

lemma level_a_constructed: "Trainer_init [[2, 0], [0, 0]] = Inr level_a"
  by (simp add: Trainer_init_def level_a_def py_index_def find_start_positions_def
      PLAYER_CELL_STATE_CODE_def ENEMY_CELL_STATE_CODE_def)

lemma level_b_constructed: "Trainer_init [[2, 0], [0, 1]] = Inr level_b"
  by (simp add: Trainer_init_def level_b_def py_index_def find_start_positions_def
      PLAYER_CELL_STATE_CODE_def ENEMY_CELL_STATE_CODE_def)

text \<open>The square root is monotone, so a bound on the distance is a bound on the sum
  of the squares.\<close>

lemma distance_le_iff:
  assumes k: "0 \<le> k"
  shows "distance_to_player px py ex ey \<le> real_of_int k
           \<longleftrightarrow> (px - ex)\<^sup>2 + (py - ey)\<^sup>2 \<le> k\<^sup>2"
proof -
  have "distance_to_player px py ex ey \<le> real_of_int k \<longleftrightarrow>
        sqrt (real_of_int ((px - ex)\<^sup>2 + (py - ey)\<^sup>2)) \<le> sqrt ((real_of_int k)\<^sup>2)"
    using k by (simp add: distance_to_player_def)
  also have "\<dots> \<longleftrightarrow> real_of_int ((px - ex)\<^sup>2 + (py - ey)\<^sup>2) \<le> (real_of_int k)\<^sup>2"
    by (rule real_sqrt_le_iff)
  also have "\<dots> \<longleftrightarrow> (px - ex)\<^sup>2 + (py - ey)\<^sup>2 \<le> k\<^sup>2"
    by (metis of_int_le_iff of_int_power)
  finally show ?thesis .
qed

lemma distance_le_3:
  "distance_to_player px py ex ey \<le> 3 \<longleftrightarrow> (px - ex)\<^sup>2 + (py - ey)\<^sup>2 \<le> 9"
  using distance_le_iff [of 3 px py ex ey] by simp

lemma distance_le_1:
  "distance_to_player px py ex ey \<le> 1 \<longleftrightarrow> (px - ex)\<^sup>2 + (py - ey)\<^sup>2 \<le> 1"
  using distance_le_iff [of 1 px py ex ey] by simp

lemma py_range_empty [simp]: "py_range a a = []"
  by (simp add: py_range_def)

subsection \<open>Movement from the bottom right corner and into walls\<close>

text \<open>
  C1. The claim: an entity at \<open>(W - 1, H - 1)\<close> that moves down reaches the escape
  coordinate \<open>(W - 1, H)\<close>. The first test of the down branch asks for
  \<open>current_y < H - 1\<close>, which fails in the bottom row, and so does the second: on the
  level \<open>[[2, 0], [0, 0]]\<close> the entity at \<open>(1, 1)\<close> stays at \<open>(1, 1)\<close> and does not
  reach \<open>(1, 2)\<close>.
\<close>

theorem get_new_position_corner_down_stays:
  "get_new_position level_a 1 1 0 1 = Inr (1, 1)"
  by (simp add: get_new_position_def level_a_def move_if_def)

text \<open>
  C2. The claim: a move whose target cell is a Wall returns the original coordinate.
  The same first test of the down branch holds in the whole right column above the
  bottom row, and it does not read the grid: on the level \<open>[[2, 0], [0, 1]]\<close> the
  entity at \<open>(1, 0)\<close> moves down onto the Wall at \<open>(1, 1)\<close>.
\<close>

theorem get_new_position_enters_wall:
  "is_wall level_b (1, 1) \<and> get_new_position level_b 1 0 0 1 = Inr (1, 1)"
  by (simp add: get_new_position_def level_b_def move_if_def is_wall_def grid_cell_def
      py_index_def WALL_CELL_STATE_CODE_def)

subsection \<open>Construction\<close>

text \<open>
  C3. The claim: construction fails on rows of inconsistent length, on a zero width or
  height, and on a grid without a player start. The grid \<open>[[0, 0], [0]]\<close> has rows of
  two lengths and no player start, and construction returns a trainer for it.
\<close>

theorem Trainer_init_accepts_ragged:
  "Trainer_init [[0, 0], [0]] =
     Inr \<lparr> game_grid = [[0, 0], [0]], game_grid_height = 2, game_grid_width = 2,
           player_start = None, enemy_start_positions = [] \<rparr>"
  by (simp add: Trainer_init_def py_index_def find_start_positions_def
      PLAYER_CELL_STATE_CODE_def ENEMY_CELL_STATE_CODE_def)

text \<open>
  C3, as amended. Construction checks nothing: it raises IndexError when the grid has
  no row and returns a trainer for every other grid, with the number of rows as
  height, the length of the first row as width, and the start positions found in the
  grid (no player start when no cell holds the player code).
\<close>

theorem Trainer_init_total:
  "Trainer_init g =
     (if g = [] then Inl IndexError
      else Inr \<lparr> game_grid = g,
                 game_grid_height = int (length g),
                 game_grid_width = int (length (hd g)),
                 player_start = fst (find_start_positions g),
                 enemy_start_positions = snd (find_start_positions g) \<rparr>)"
  by (cases g) (simp_all add: Trainer_init_def py_index_def)

theorem Trainer_init_total_witness:
  "Trainer_init [[]] =
     Inr \<lparr> game_grid = [[]], game_grid_height = 1, game_grid_width = 0,
           player_start = None, enemy_start_positions = [] \<rparr>"
  using Trainer_init_total [of "[[]]"] by (simp add: find_start_positions_def)

subsection \<open>Shooting from the player's own cell\<close>

text \<open>
  C4. When the enemy and the player are on the same cell and the enemy shoots, the row
  test and the column test both pass (each \<^verbatim>\<open>all\<close> ranges over no cell), and the
  health drops by twice the shoot damage, 40.
\<close>

theorem shoot_colocated_twice:
  "perform t SHOOT_PLAYER x y x y h = Inr ((x, y), h - 2 * ENEMY_SHOOT_DAMAGE)
   \<and> 2 * ENEMY_SHOOT_DAMAGE = 40"
  by (simp add: perform_def shoot_player_def shoot_axis_def distance_le_3
      ENEMY_SHOOT_DAMAGE_def)

subsection \<open>The valid moves of the player\<close>

lemma py_and_not_wall:
  assumes "rectangular t" "a \<Longrightarrow> in_bounds t (x, y)"
  shows "py_and a (not_wall t x y) = Inr (a \<and> \<not> is_wall t (x, y))"
  using assms by (cases a) (simp_all add: not_wall_in_bounds)

lemma get_valid_moves_value:
  assumes r: "rectangular t" and b: "in_bounds t (x, y)"
  shows "get_valid_moves t x y =
     Inr ([(x, y)]
          @ (if x > 0 \<and> \<not> is_wall t (x - 1, y) then [(x - 1, y)] else [])
          @ (if x < game_grid_width t - 1 \<and> \<not> is_wall t (x + 1, y) then [(x + 1, y)] else [])
          @ (if y > 0 \<and> \<not> is_wall t (x, y - 1) then [(x, y - 1)] else [])
          @ (if x = game_grid_width t - 1 \<and> y = game_grid_height t - 1
             then [(x, y + 1)] else [])
          @ (if y < game_grid_height t - 1 \<and> \<not> is_wall t (x, y + 1) then [(x, y + 1)] else []))"
proof -
  have l: "py_and (x > 0) (not_wall t (x - 1) y) = Inr (x > 0 \<and> \<not> is_wall t (x - 1, y))"
    using b by (intro py_and_not_wall [OF r]) (simp add: in_bounds_def)
  have rr: "py_and (x < game_grid_width t - 1) (not_wall t (x + 1) y)
            = Inr (x < game_grid_width t - 1 \<and> \<not> is_wall t (x + 1, y))"
    using b by (intro py_and_not_wall [OF r]) (simp add: in_bounds_def)
  have u: "py_and (y > 0) (not_wall t x (y - 1)) = Inr (y > 0 \<and> \<not> is_wall t (x, y - 1))"
    using b by (intro py_and_not_wall [OF r]) (simp add: in_bounds_def)
  have d: "py_and (y < game_grid_height t - 1) (not_wall t x (y + 1))
            = Inr (y < game_grid_height t - 1 \<and> \<not> is_wall t (x, y + 1))"
    using b by (intro py_and_not_wall [OF r]) (simp add: in_bounds_def)
  show ?thesis
    unfolding get_valid_moves_def l rr u d bind_e_Inr ..
qed

text \<open>
  C6. On a rectangular grid and from a position inside it, \<^verbatim>\<open>get_valid_moves\<close>
  returns a list that contains the current cell; every other member is a cell inside
  the grid that is not a Wall, or is the escape coordinate \<open>(W - 1, H)\<close>, which is a
  member exactly when the position is \<open>(W - 1, H - 1)\<close>.
\<close>

theorem get_valid_moves_members:
  assumes "rectangular t" and "in_bounds t (x, y)"
  shows "\<exists>ms. get_valid_moves t x y = Inr ms
           \<and> (x, y) \<in> set ms
           \<and> (\<forall>p \<in> set ms. p = (x, y) \<or> (in_bounds t p \<and> \<not> is_wall t p)
                 \<or> (p = (game_grid_width t - 1, game_grid_height t)
                      \<and> (x, y) = (game_grid_width t - 1, game_grid_height t - 1)))
           \<and> ((game_grid_width t - 1, game_grid_height t) \<in> set ms
                 \<longleftrightarrow> (x, y) = (game_grid_width t - 1, game_grid_height t - 1))"
  using assms(2) unfolding get_valid_moves_value [OF assms]
  by (auto simp: in_bounds_def)

lemma rectangular_level_c: "rectangular level_c"
  by (simp add: rectangular_def level_c_def)

theorem get_valid_moves_members_witness:
  "rectangular level_c \<and> in_bounds level_c (1, 1) \<and> is_wall level_c (1, 0)
   \<and> (\<exists>ms. get_valid_moves level_c 1 1 = Inr ms
          \<and> (1, 1) \<in> set ms \<and> (1, 2) \<in> set ms \<and> (1, 0) \<notin> set ms)"
proof -
  have b: "in_bounds level_c (1, 1)" by (simp add: in_bounds_def level_c_def)
  have w: "is_wall level_c (1, 0)"
    by (simp add: is_wall_def grid_cell_def py_index_def level_c_def WALL_CELL_STATE_CODE_def)
  from get_valid_moves_members [OF rectangular_level_c b]
  obtain ms where ms: "get_valid_moves level_c 1 1 = Inr ms" "(1, 1) \<in> set ms"
    "\<forall>p \<in> set ms. p = (1, 1) \<or> (in_bounds level_c p \<and> \<not> is_wall level_c p)
        \<or> (p = (game_grid_width level_c - 1, game_grid_height level_c)
             \<and> (1, 1) = (game_grid_width level_c - 1, game_grid_height level_c - 1))"
    "(game_grid_width level_c - 1, game_grid_height level_c) \<in> set ms
       \<longleftrightarrow> (1, 1) = (game_grid_width level_c - 1, game_grid_height level_c - 1)"
    by blast
  from ms(4) have e: "(1, 2) \<in> set ms" by (simp add: level_c_def)
  from ms(3) w have n: "(1, 0) \<notin> set ms" by (auto simp: level_c_def)
  from rectangular_level_c b w ms(1,2) e n show ?thesis by blast
qed

subsection \<open>Shooting along a row or a column\<close>

lemma set_py_range [simp]: "set (py_range a b) = {a ..< b}"
  by (auto simp: py_range_def)

lemma py_all_total:
  "(\<And>v. v \<in> set vs \<Longrightarrow> f v = Inr (g v)) \<Longrightarrow> py_all f vs = Inr (\<forall>v \<in> set vs. g v)"
  by (induction vs) simp_all

lemma shoot_axis_total:
  assumes "\<And>v. min e p \<le> v \<Longrightarrow> v < max e p \<Longrightarrow> clear v = Inr (g v)"
  shows "shoot_axis clear e p h =
           Inr (if \<forall>v. min e p \<le> v \<and> v < max e p \<longrightarrow> g v
                then h - ENEMY_SHOOT_DAMAGE else h)"
proof (cases "e \<le> p")
  case True
  have "py_all clear (py_range e p) = Inr (\<forall>v \<in> set (py_range e p). g v)"
    using True assms by (intro py_all_total) simp
  with True show ?thesis
    by (auto simp: shoot_axis_def)
next
  case False
  have "py_all clear (py_range p e) = Inr (\<forall>v \<in> set (py_range p e). g v)"
    using False assms by (intro py_all_total) simp
  with False show ?thesis
    by (auto simp: shoot_axis_def)
qed

text \<open>The cells read by a shot along a row or a column of a rectangular grid.\<close>

lemma shoot_row_total:
  assumes r: "rectangular t" and e: "in_bounds t (ex, y)" and p: "in_bounds t (px, y)"
  shows "shoot_axis (\<lambda>x. not_wall t x y) ex px h =
           Inr (if \<forall>x. min ex px \<le> x \<and> x < max ex px \<longrightarrow> \<not> is_wall t (x, y)
                then h - ENEMY_SHOOT_DAMAGE else h)"
proof (rule shoot_axis_total)
  fix v assume "min ex px \<le> v" "v < max ex px"
  with e p have "in_bounds t (v, y)" by (auto simp: in_bounds_def)
  then show "not_wall t v y = Inr (\<not> is_wall t (v, y))"
    by (rule not_wall_in_bounds [OF r])
qed

lemma shoot_column_total:
  assumes r: "rectangular t" and e: "in_bounds t (x, ey)" and p: "in_bounds t (x, py)"
  shows "shoot_axis (\<lambda>y. not_wall t x y) ey py h =
           Inr (if \<forall>y. min ey py \<le> y \<and> y < max ey py \<longrightarrow> \<not> is_wall t (x, y)
                then h - ENEMY_SHOOT_DAMAGE else h)"
proof (rule shoot_axis_total)
  fix v assume "min ey py \<le> v" "v < max ey py"
  with e p have "in_bounds t (x, v)" by (auto simp: in_bounds_def)
  then show "not_wall t x v = Inr (\<not> is_wall t (x, v))"
    by (rule not_wall_in_bounds [OF r])
qed

text \<open>
  C7. On a rectangular grid, with the enemy and the player inside it, a shot leaves
  the health unchanged when a Wall lies strictly between the two on their shared row
  or their shared column.
\<close>

theorem shoot_blocked_by_wall:
  assumes r: "rectangular t" and e: "in_bounds t (ex, ey)" and p: "in_bounds t (px, py)"
    and w: "(ey = py \<and> (\<exists>x. min ex px < x \<and> x < max ex px \<and> is_wall t (x, ey)))
          \<or> (ex = px \<and> (\<exists>y. min ey py < y \<and> y < max ey py \<and> is_wall t (ex, y)))"
  shows "perform t SHOOT_PLAYER ex ey px py h = Inr ((ex, ey), h)"
proof -
  from w show ?thesis
  proof
    assume a: "ey = py \<and> (\<exists>x. min ex px < x \<and> x < max ex px \<and> is_wall t (x, ey))"
    then have ne: "ex \<noteq> px" by auto
    from a p have p': "in_bounds t (px, ey)" by simp
    from a have "\<not> (\<forall>x. min ex px \<le> x \<and> x < max ex px \<longrightarrow> \<not> is_wall t (x, ey))"
      by force
    then have "shoot_axis (\<lambda>x. not_wall t x ey) ex px h = Inr h"
      unfolding shoot_row_total [OF r e p'] by (simp only: if_False)
    with a ne show ?thesis
      by (simp add: perform_def shoot_player_def)
  next
    assume a: "ex = px \<and> (\<exists>y. min ey py < y \<and> y < max ey py \<and> is_wall t (ex, y))"
    then have ne: "ey \<noteq> py" by auto
    from a p have p': "in_bounds t (ex, py)" by simp
    from a have "\<not> (\<forall>y. min ey py \<le> y \<and> y < max ey py \<longrightarrow> \<not> is_wall t (ex, y))"
      by force
    then have "shoot_axis (\<lambda>y. not_wall t ex y) ey py h = Inr h"
      unfolding shoot_column_total [OF r e p'] by (simp only: if_False)
    with a ne show ?thesis
      by (simp add: perform_def shoot_player_def)
  qed
qed

lemma level_d_constructed: "Trainer_init [[2, 0, 0], [3, 1, 0], [0, 0, 0]] = Inr level_d"
  by (simp add: Trainer_init_def level_d_def py_index_def find_start_positions_def
      PLAYER_CELL_STATE_CODE_def ENEMY_CELL_STATE_CODE_def)

text \<open>The example of the claim: the enemy at \<open>(0, 1)\<close>, the player at \<open>(2, 1)\<close> and a
  Wall at \<open>(1, 1)\<close>.\<close>

theorem shoot_blocked_by_wall_witness:
  "rectangular level_d \<and> in_bounds level_d (0, 1) \<and> in_bounds level_d (2, 1)
   \<and> is_wall level_d (1, 1)
   \<and> perform level_d SHOOT_PLAYER 0 1 2 1 100 = Inr ((0, 1), 100)"
proof -
  have r: "rectangular level_d" by (simp add: rectangular_def level_d_def)
  have e: "in_bounds level_d (0, 1)" by (simp add: in_bounds_def level_d_def)
  have p: "in_bounds level_d (2, 1)" by (simp add: in_bounds_def level_d_def)
  have w: "is_wall level_d (1, 1)"
    by (simp add: is_wall_def grid_cell_def py_index_def level_d_def WALL_CELL_STATE_CODE_def)
  have "(1::int) = 1 \<and> (\<exists>x. min 0 2 < x \<and> x < max 0 2 \<and> is_wall level_d (x, 1))"
    using w by (intro conjI exI [of _ 1]) simp_all
  then have "perform level_d SHOOT_PLAYER 0 1 2 1 100 = Inr ((0, 1), 100)"
    by (intro shoot_blocked_by_wall [OF r e p] disjI1)
  with r e p w show ?thesis by simp
qed

subsection \<open>The ranges of the shot and of the hit\<close>

text \<open>
  C8. A shot leaves the health unchanged when the distance between the enemy and the
  player exceeds 3 (the sum of the squares exceeds 9), and when the two share neither
  a row nor a column. A hit lowers the health by 50 when the distance is at most 1
  and leaves it unchanged otherwise, on every grid.
\<close>

theorem shoot_and_melee_range:
  "(distance_to_player px py ex ey > 3 \<or> (px - ex)\<^sup>2 + (py - ey)\<^sup>2 > 9
      \<or> (ey \<noteq> py \<and> ex \<noteq> px)
    \<longrightarrow> perform t SHOOT_PLAYER ex ey px py h = Inr ((ex, ey), h))
   \<and> perform t HIT_PLAYER ex ey px py h =
       Inr ((ex, ey), if distance_to_player px py ex ey \<le> 1 then h - 50 else h)
   \<and> (distance_to_player px py ex ey \<le> 1 \<longleftrightarrow> (px - ex)\<^sup>2 + (py - ey)\<^sup>2 \<le> 1)
   \<and> (distance_to_player px py ex ey > 3 \<longleftrightarrow> (px - ex)\<^sup>2 + (py - ey)\<^sup>2 > 9)"
  using distance_le_3 [of px py ex ey] distance_le_1 [of px py ex ey]
  by (auto simp: perform_def shoot_player_def hit_player_def ENEMY_HIT_DAMAGE_def)

theorem shoot_and_melee_range_witness:
  "perform level_d SHOOT_PLAYER 0 0 2 2 100 = Inr ((0, 0), 100)
   \<and> perform level_d SHOOT_PLAYER 0 0 0 4 100 = Inr ((0, 0), 100)
   \<and> perform level_d HIT_PLAYER 0 1 1 1 100 = Inr ((0, 1), 50)
   \<and> perform level_d HIT_PLAYER 0 0 1 1 100 = Inr ((0, 0), 100)"
  using shoot_and_melee_range [of 2 2 0 0 level_d 100]
    shoot_and_melee_range [of 0 4 0 0 level_d 100]
    shoot_and_melee_range [of 1 1 0 1 level_d 100]
    shoot_and_melee_range [of 1 1 0 0 level_d 100]
  by simp

subsection \<open>The selection of the decision\<close>

lemma select_loop_none:
  "(\<And>v. v \<in> set vs \<Longrightarrow> v \<le> lv) \<Longrightarrow> select_loop i vs (lv, d) = (lv, d)"
  by (induction vs arbitrary: i) (simp_all add: not_less [symmetric])

lemma select_loop_some:
  assumes "\<exists>v \<in> set vs. lv < v"
  shows "\<exists>k < length vs. select_loop i vs (lv, d) = (vs ! k, i + int k)
            \<and> lv < vs ! k \<and> (\<forall>j < k. vs ! j < vs ! k) \<and> (\<forall>v \<in> set vs. v \<le> vs ! k)"
  using assms
proof (induction vs arbitrary: i lv d)
  case Nil
  then show ?case by simp
next
  case (Cons v vs)
  show ?case
  proof (cases "lv < v")
    case True
    show ?thesis
    proof (cases "\<exists>u \<in> set vs. v < u")
      case True
      from Cons.IH [OF True, of "i + 1" i] obtain k where k: "k < length vs"
        "select_loop (i + 1) vs (v, i) = (vs ! k, i + 1 + int k)" "v < vs ! k"
        "\<forall>j < k. vs ! j < vs ! k" "\<forall>u \<in> set vs. u \<le> vs ! k"
        by blast
      have "\<forall>j < Suc k. (v # vs) ! j < (v # vs) ! Suc k"
        using k(3,4) by (auto simp: nth_Cons split: nat.splits)
      moreover have "\<forall>u \<in> set (v # vs). u \<le> (v # vs) ! Suc k"
        using k(3,5) by auto
      moreover have "select_loop i (v # vs) (lv, d) = ((v # vs) ! Suc k, i + int (Suc k))"
        using \<open>lv < v\<close> k(2) by simp
      moreover have "lv < (v # vs) ! Suc k" using \<open>lv < v\<close> k(3) by simp
      moreover have "Suc k < length (v # vs)" using k(1) by simp
      ultimately show ?thesis by blast
    next
      case False
      then have le: "\<And>u. u \<in> set vs \<Longrightarrow> u \<le> v" by (auto simp: not_less)
      have "select_loop i (v # vs) (lv, d) = ((v # vs) ! 0, i + int 0)"
        using \<open>lv < v\<close> select_loop_none [of vs v "i + 1" i, OF le] by simp
      moreover have "\<forall>u \<in> set (v # vs). u \<le> (v # vs) ! 0" using le by auto
      moreover have "lv < (v # vs) ! 0" using \<open>lv < v\<close> by simp
      ultimately show ?thesis by (intro exI [of _ 0]) simp
    qed
  next
    case False
    with Cons.prems have ex: "\<exists>u \<in> set vs. lv < u" by auto
    from Cons.IH [OF ex, of "i + 1" d] obtain k where k: "k < length vs"
      "select_loop (i + 1) vs (lv, d) = (vs ! k, i + 1 + int k)" "lv < vs ! k"
      "\<forall>j < k. vs ! j < vs ! k" "\<forall>u \<in> set vs. u \<le> vs ! k"
      by blast
    have "\<forall>j < Suc k. (v # vs) ! j < (v # vs) ! Suc k"
      using k(3,4) False by (auto simp: nth_Cons split: nat.splits)
    moreover have "\<forall>u \<in> set (v # vs). u \<le> (v # vs) ! Suc k"
      using k(3,5) False by auto
    moreover have "select_loop i (v # vs) (lv, d) = ((v # vs) ! Suc k, i + int (Suc k))"
      using False k(2) by simp
    moreover have "lv < (v # vs) ! Suc k" using k(3) by simp
    moreover have "Suc k < length (v # vs)" using k(1) by simp
    ultimately show ?thesis by blast
  qed
qed

text \<open>
  C10. The selection starts at \<open>(-1, -1)\<close> and replaces the pair on a strictly greater
  value only. When some output exceeds \<open>-1\<close>, the decision is the first index at
  which the output takes its maximum. When no output exceeds \<open>-1\<close>, the decision stays
  \<open>-1\<close>, and the conversion to an action raises ValueError.
\<close>

theorem select_decision_first_maximum:
  "((\<exists>v \<in> set output. - 1 < v) \<longrightarrow>
      (\<exists>k < length output. select_decision output = int k
          \<and> output ! k = Max (set output) \<and> (\<forall>j < k. output ! j < output ! k)))
   \<and> ((\<forall>v \<in> set output. v \<le> - 1) \<longrightarrow>
      select_decision output = - 1 \<and> decide output = Inl ValueError)"
proof (intro conjI impI)
  assume "\<exists>v \<in> set output. - 1 < v"
  from select_loop_some [OF this, of 0 "- 1"] obtain k where k: "k < length output"
    "select_loop 0 output (- 1, - 1) = (output ! k, 0 + int k)"
    "\<forall>j < k. output ! j < output ! k" "\<forall>v \<in> set output. v \<le> output ! k"
    by blast
  have "Max (set output) = output ! k"
    using k(1,4) by (intro Max_eqI) auto
  with k show "\<exists>k < length output. select_decision output = int k
          \<and> output ! k = Max (set output) \<and> (\<forall>j < k. output ! j < output ! k)"
    by (auto simp: select_decision_def)
next
  assume a: "\<forall>v \<in> set output. v \<le> - 1"
  then show "select_decision output = - 1"
    by (simp add: select_decision_def select_loop_none)
  then show "decide output = Inl ValueError"
    by (simp add: decide_def EnemyAction_of_def)
qed

theorem select_decision_first_maximum_witness:
  "(\<exists>v \<in> set [1/5, 9/10, 9/10, - 1 :: real]. - 1 < v)
   \<and> (\<exists>k < length [1/5, 9/10, 9/10, - 1 :: real].
         select_decision [1/5, 9/10, 9/10, - 1] = int k
         \<and> [1/5, 9/10, 9/10, - 1 :: real] ! k = Max (set [1/5, 9/10, 9/10, - 1])
         \<and> (\<forall>j < k. [1/5, 9/10, 9/10, - 1 :: real] ! j < [1/5, 9/10, 9/10, - 1] ! k))
   \<and> select_decision [1/5, 9/10, 9/10, - 1] = 1
   \<and> decide [1/5, 9/10, 9/10, - 1] = Inr MOVE_RIGHT
   \<and> select_decision [- 1, - 1, - 2] = - 1
   \<and> decide [- 1, - 1, - 2] = Inl ValueError"
proof -
  have h: "\<exists>v \<in> set [1/5, 9/10, 9/10, - 1 :: real]. - 1 < v" by simp
  have 1: "\<exists>k < length [1/5, 9/10, 9/10, - 1 :: real].
         select_decision [1/5, 9/10, 9/10, - 1] = int k
         \<and> [1/5, 9/10, 9/10, - 1 :: real] ! k = Max (set [1/5, 9/10, 9/10, - 1])
         \<and> (\<forall>j < k. [1/5, 9/10, 9/10, - 1 :: real] ! j < [1/5, 9/10, 9/10, - 1] ! k)"
    using select_decision_first_maximum [of "[1/5, 9/10, 9/10, - 1]"] h by blast
  have 2: "select_decision [- 1, - 1, - 2] = - 1 \<and> decide [- 1, - 1, - 2] = Inl ValueError"
    using select_decision_first_maximum [of "[- 1, - 1, - 2]"] by simp
  have 3: "select_decision [1/5, 9/10, 9/10, - 1] = 1"
    by (simp add: select_decision_def)
  then have 4: "decide [1/5, 9/10, 9/10, - 1] = Inr MOVE_RIGHT"
    by (simp add: decide_def EnemyAction_of_def)
  from h 1 2 3 4 show ?thesis by blast
qed

subsection \<open>What the loops of an episode leave behind\<close>

lemma bind_e_eq_Inr: "bind_e r f = Inr v \<longleftrightarrow> (\<exists>u. r = Inr u \<and> f u = Inr v)"
  by (cases r) simp_all

lemma enemy_actions_append [simp]:
  "enemy_actions (cs @ ds) = enemy_actions cs + enemy_actions ds"
  by (simp add: enemy_actions_def)

lemma enemy_actions_Nil [simp]: "enemy_actions [] = 0"
  by (simp add: enemy_actions_def)

text \<open>What one action of an enemy leaves behind.\<close>

lemma enemy_turn_effect:
  assumes "enemy_turn t policy player i s = Inr s'"
  shows "\<exists>ext. changes s' = changes s @ ext \<and> enemy_actions ext = 1
           \<and> filter is_terminal ext = []"
    and "moves_made s' = moves_made s"
    and "length (enemy_positions s') = length (enemy_positions s)"
  using assms
  by (auto simp: enemy_turn_def bind_e_eq_Inr enemy_actions_def split: prod.splits)

lemma enemy_loop_effect:
  assumes "enemy_loop t policy player is s = Inr s'"
  shows "\<exists>ext. changes s' = changes s @ ext \<and> filter is_terminal ext = []
           \<and> enemy_actions ext \<le> length is
           \<and> (0 < player_health s' \<longrightarrow> enemy_actions ext = length is)
           \<and> (player_health s' \<le> 0 \<and> 0 < player_health s \<longrightarrow> 1 \<le> enemy_actions ext)"
    and "moves_made s' = moves_made s"
    and "length (enemy_positions s') = length (enemy_positions s)"
  using assms
proof (induction "is" arbitrary: s)
  case Nil
  { case 1 then show ?case by simp }
  { case 2 then show ?case by simp }
  { case 3 then show ?case by simp }
next
  case (Cons i "is")
  { case 1
    from 1 obtain s1 where s1: "enemy_turn t policy player i s = Inr s1"
      and rest: "(if player_health s1 \<le> 0 then Inr s1 else enemy_loop t policy player is s1) = Inr s'"
      by (auto simp: bind_e_eq_Inr)
    from enemy_turn_effect(1) [OF s1] obtain e1 where e1: "changes s1 = changes s @ e1"
      "enemy_actions e1 = 1" "filter is_terminal e1 = []" by blast
    show ?case
    proof (cases "player_health s1 \<le> 0")
      case True
      with rest have "s' = s1" by simp
      with e1 True show ?thesis by auto
    next
      case False
      with rest have l: "enemy_loop t policy player is s1 = Inr s'" by simp
      from Cons.IH(1) [OF l] obtain e2 where e2: "changes s' = changes s1 @ e2"
        "filter is_terminal e2 = []" "enemy_actions e2 \<le> length is"
        "0 < player_health s' \<longrightarrow> enemy_actions e2 = length is"
        by blast
      have "changes s' = changes s @ (e1 @ e2)" using e1 e2 by simp
      moreover have "filter is_terminal (e1 @ e2) = []" using e1 e2 by simp
      moreover have "enemy_actions (e1 @ e2) \<le> length (i # is)" using e1 e2 by simp
      moreover have "0 < player_health s' \<longrightarrow> enemy_actions (e1 @ e2) = length (i # is)"
        using e1 e2 by simp
      moreover have "1 \<le> enemy_actions (e1 @ e2)" using e1 by simp
      ultimately show ?thesis by blast
    qed }
  { case 2
    from 2 obtain s1 where s1: "enemy_turn t policy player i s = Inr s1"
      and rest: "(if player_health s1 \<le> 0 then Inr s1 else enemy_loop t policy player is s1) = Inr s'"
      by (auto simp: bind_e_eq_Inr)
    then show ?case
      using enemy_turn_effect(2) [OF s1] Cons.IH(2) [of s1]
      by (auto split: if_splits) }
  { case 3
    from 3 obtain s1 where s1: "enemy_turn t policy player i s = Inr s1"
      and rest: "(if player_health s1 \<le> 0 then Inr s1 else enemy_loop t policy player is s1) = Inr s'"
      by (auto simp: bind_e_eq_Inr)
    then show ?case
      using enemy_turn_effect(3) [OF s1] Cons.IH(3) [of s1]
      by (auto split: if_splits) }
qed

text \<open>The loop over the moves, from any state with a positive health: the moves
  played, the changes recorded, and what each way of leaving the loop tells.\<close>

lemma moves_loop_effect:
  assumes "moves_loop t policy moves s = Inr (out, s')" and "0 < player_health s"
  shows "\<exists>k ext. moves_made s' = moves_made s + int k \<and> k \<le> length moves
           \<and> changes s' = changes s @ ext \<and> filter is_terminal ext = []
           \<and> length (enemy_positions s') = length (enemy_positions s)
           \<and> (\<forall>j. Suc j < k \<longrightarrow> moves ! j \<noteq> escape_coordinate t)
           \<and> (out = Escaped \<longrightarrow> 0 < k \<and> moves ! (k - 1) = escape_coordinate t
                 \<and> 0 < player_health s'
                 \<and> enemy_actions ext = (k - 1) * length (enemy_positions s))
           \<and> (out = Defeated \<longrightarrow> 0 < k \<and> moves ! (k - 1) \<noteq> escape_coordinate t
                 \<and> player_health s' \<le> 0
                 \<and> (k - 1) * length (enemy_positions s) < enemy_actions ext
                 \<and> enemy_actions ext \<le> k * length (enemy_positions s))
           \<and> (out = MoveLimit \<longrightarrow> k = length moves
                 \<and> (0 < k \<longrightarrow> moves ! (k - 1) \<noteq> escape_coordinate t)
                 \<and> 0 < player_health s'
                 \<and> enemy_actions ext = k * length (enemy_positions s))"
  using assms
proof (induction moves arbitrary: s)
  case Nil
  then have "out = MoveLimit" "s' = s" by simp_all
  with Nil.prems(2) show ?case
    by (intro exI [of _ 0] exI [of _ "[]"]) simp
next
  case (Cons p moves)
  obtain px py where p: "p = (px, py)" by (cases p)
  define s1 where "s1 = s \<lparr> moves_made := moves_made s + 1 \<rparr>"
  define E where "E = length (enemy_positions s)"
  have s1: "player_health s1 = player_health s" "changes s1 = changes s"
    "enemy_positions s1 = enemy_positions s" "moves_made s1 = moves_made s + 1"
    by (simp_all add: s1_def)
  show ?case
  proof (cases "p = escape_coordinate t")
    case True
    with Cons.prems(1) p have "out = Escaped" "s' = s1"
      by (simp_all add: escape_coordinate_def s1_def Let_def)
    with True s1 Cons.prems(2) show ?thesis
      by (intro exI [of _ 1] exI [of _ "[]"]) simp
  next
    case False
    with Cons.prems(1) p obtain s2 where
      l: "enemy_loop t policy p [0 ..< length (enemy_positions s1)] s1 = Inr s2"
      and rest: "(if player_health s2 \<le> 0 then Inr (Defeated, s2)
                  else moves_loop t policy moves s2) = Inr (out, s')"
      by (auto simp: escape_coordinate_def s1_def Let_def bind_e_eq_Inr)
    from enemy_loop_effect [OF l] s1 Cons.prems(2) obtain e1 where
      e1: "changes s2 = changes s @ e1" "filter is_terminal e1 = []"
        "enemy_actions e1 \<le> E" "0 < player_health s2 \<longrightarrow> enemy_actions e1 = E"
        "player_health s2 \<le> 0 \<longrightarrow> 1 \<le> enemy_actions e1"
      and m2: "moves_made s2 = moves_made s + 1"
      and n2: "length (enemy_positions s2) = E"
      unfolding E_def by auto
    show ?thesis
    proof (cases "player_health s2 \<le> 0")
      case True
      with rest have o: "out = Defeated" "s' = s2" by simp_all
      have "moves_made s' = moves_made s + int 1" using o m2 by simp
      moreover have "(1::nat) \<le> length (p # moves)" by simp
      moreover have "changes s' = changes s @ e1" using o e1 by simp
      moreover have "length (enemy_positions s') = length (enemy_positions s)"
        using o n2 E_def by simp
      moreover have "\<forall>j. Suc j < 1 \<longrightarrow> (p # moves) ! j \<noteq> escape_coordinate t" by simp
      moreover have "(p # moves) ! (1 - 1) \<noteq> escape_coordinate t" using False by simp
      moreover have "(1 - 1) * length (enemy_positions s) < enemy_actions e1"
        using e1(5) True by simp
      moreover have "enemy_actions e1 \<le> 1 * length (enemy_positions s)"
        using e1(3) E_def by simp
      moreover have "player_health s' \<le> 0" using o True by simp
      ultimately show ?thesis using e1(2) o(1)
        by (intro exI [of _ 1] exI [of _ e1]) simp
    next
      case h2: False
      with rest have r: "moves_loop t policy moves s2 = Inr (out, s')" by simp
      from h2 have pos: "0 < player_health s2" by simp
      from Cons.IH [OF r pos] obtain k e2 where
        k: "moves_made s' = moves_made s2 + int k" "k \<le> length moves"
          "changes s' = changes s2 @ e2" "filter is_terminal e2 = []"
          "length (enemy_positions s') = length (enemy_positions s2)"
          "\<forall>j. Suc j < k \<longrightarrow> moves ! j \<noteq> escape_coordinate t"
        and esc: "out = Escaped \<longrightarrow> 0 < k \<and> moves ! (k - 1) = escape_coordinate t
                 \<and> 0 < player_health s' \<and> enemy_actions e2 = (k - 1) * E"
        and def: "out = Defeated \<longrightarrow> 0 < k \<and> moves ! (k - 1) \<noteq> escape_coordinate t
                 \<and> player_health s' \<le> 0
                 \<and> (k - 1) * E < enemy_actions e2 \<and> enemy_actions e2 \<le> k * E"
        and lim: "out = MoveLimit \<longrightarrow> k = length moves
                 \<and> (0 < k \<longrightarrow> moves ! (k - 1) \<noteq> escape_coordinate t)
                 \<and> 0 < player_health s' \<and> enemy_actions e2 = k * E"
        unfolding n2 by blast
      have a1: "enemy_actions e1 = E" using e1(4) pos by simp
      have c1: "moves_made s' = moves_made s + int (Suc k)" using k(1) m2 by simp
      have c2: "Suc k \<le> length (p # moves)" using k(2) by simp
      have c3: "changes s' = changes s @ (e1 @ e2)" using k(3) e1(1) by simp
      have c4: "filter is_terminal (e1 @ e2) = []" using k(4) e1(2) by simp
      have c5: "length (enemy_positions s') = length (enemy_positions s)"
        using k(5) n2 E_def by simp
      have c6: "\<forall>j. Suc j < Suc k \<longrightarrow> (p # moves) ! j \<noteq> escape_coordinate t"
      proof (intro allI impI)
        fix j assume "Suc j < Suc k"
        then show "(p # moves) ! j \<noteq> escape_coordinate t"
          using False k(6) by (cases j) simp_all
      qed
      have nth: "0 < k \<Longrightarrow> (p # moves) ! (Suc k - 1) = moves ! (k - 1)"
        by (cases k) simp_all
      have mul: "0 < k \<Longrightarrow> E + (k - 1) * E = (Suc k - 1) * E"
        by (cases k) simp_all
      have c7: "out = Escaped \<longrightarrow> 0 < Suc k
                 \<and> (p # moves) ! (Suc k - 1) = escape_coordinate t
                 \<and> 0 < player_health s'
                 \<and> enemy_actions (e1 @ e2) = (Suc k - 1) * length (enemy_positions s)"
        using esc a1 nth mul unfolding E_def [symmetric] by auto
      have c8: "out = Defeated \<longrightarrow> 0 < Suc k
                 \<and> (p # moves) ! (Suc k - 1) \<noteq> escape_coordinate t
                 \<and> player_health s' \<le> 0
                 \<and> (Suc k - 1) * length (enemy_positions s) < enemy_actions (e1 @ e2)
                 \<and> enemy_actions (e1 @ e2) \<le> Suc k * length (enemy_positions s)"
        using def a1 nth mul unfolding E_def [symmetric] by auto
      have c9: "out = MoveLimit \<longrightarrow> Suc k = length (p # moves)
                 \<and> (0 < Suc k \<longrightarrow> (p # moves) ! (Suc k - 1) \<noteq> escape_coordinate t)
                 \<and> 0 < player_health s'
                 \<and> enemy_actions (e1 @ e2) = Suc k * length (enemy_positions s)"
      proof
        assume o: "out = MoveLimit"
        with lim have l: "k = length moves" "0 < k \<longrightarrow> moves ! (k - 1) \<noteq> escape_coordinate t"
          "0 < player_health s'" "enemy_actions e2 = k * E" by blast+
        have "(p # moves) ! (Suc k - 1) \<noteq> escape_coordinate t"
          using False l(2) by (cases k) simp_all
        moreover have "enemy_actions (e1 @ e2) = Suc k * length (enemy_positions s)"
          using a1 l(4) by (simp add: E_def)
        ultimately show "Suc k = length (p # moves)
                 \<and> (0 < Suc k \<longrightarrow> (p # moves) ! (Suc k - 1) \<noteq> escape_coordinate t)
                 \<and> 0 < player_health s'
                 \<and> enemy_actions (e1 @ e2) = Suc k * length (enemy_positions s)"
          using l(1,3) by simp
      qed
      from c1 c2 c3 c4 c5 c6 c7 c8 c9 show ?thesis by blast
    qed
  qed
qed

subsection \<open>Episodes on well-formed levels raise nothing\<close>

lemma get_new_position_in_bounds:
  assumes r: "rectangular t" and b: "in_bounds t (x, y)"
  shows "\<exists>p. get_new_position t x y hm vm = Inr p \<and> in_bounds t p"
proof -
  have 1: "py_and (x < game_grid_width t - 1) (not_wall t (x + 1) y)
            = Inr (x < game_grid_width t - 1 \<and> \<not> is_wall t (x + 1, y))"
    using b by (intro py_and_not_wall [OF r]) (simp add: in_bounds_def)
  have 2: "py_and (x > 0) (not_wall t (x - 1) y) = Inr (x > 0 \<and> \<not> is_wall t (x - 1, y))"
    using b by (intro py_and_not_wall [OF r]) (simp add: in_bounds_def)
  have 3: "py_and (y < game_grid_height t - 1) (not_wall t x (y + 1))
            = Inr (y < game_grid_height t - 1 \<and> \<not> is_wall t (x, y + 1))"
    using b by (intro py_and_not_wall [OF r]) (simp add: in_bounds_def)
  have 4: "py_and (y > 0) (not_wall t x (y - 1)) = Inr (y > 0 \<and> \<not> is_wall t (x, y - 1))"
    using b by (intro py_and_not_wall [OF r]) (simp add: in_bounds_def)
  show ?thesis
    unfolding get_new_position_def 1 2 3 4 move_if_def bind_e_Inr
    using b by (auto simp: in_bounds_def)
qed

lemma shoot_player_total:
  assumes r: "rectangular t" and e: "in_bounds t (ex, ey)" and p: "in_bounds t (px, py)"
  shows "\<exists>h'. shoot_player t ex ey px py h = Inr h'"
proof -
  have row: "ey = py \<Longrightarrow> \<exists>h'. shoot_axis (\<lambda>x. not_wall t x ey) ex px h = Inr h'" for h
    using shoot_row_total [OF r e, of px h] p by simp
  have col: "ex = px \<Longrightarrow> \<exists>h'. shoot_axis (\<lambda>y. not_wall t ex y) ey py h = Inr h'" for h
    using shoot_column_total [OF r e, of py h] p by simp
  show ?thesis
  proof (cases "ey = py")
    case True
    from row [OF True, of h] obtain h1 where
      "shoot_axis (\<lambda>x. not_wall t x ey) ex px h = Inr h1" ..
    with True col [of h1] show ?thesis
      by (auto simp: shoot_player_def)
  next
    case False
    with col [of h] show ?thesis
      by (auto simp: shoot_player_def)
  qed
qed

lemma perform_total:
  assumes r: "rectangular t" and e: "in_bounds t (ex, ey)" and p: "in_bounds t (px, py)"
  shows "\<exists>q h'. perform t d ex ey px py h = Inr (q, h') \<and> in_bounds t q"
proof (cases d)
  case SHOOT_PLAYER
  from shoot_player_total [OF r e p, of h] obtain h' where
    "shoot_player t ex ey px py h = Inr h'" ..
  with SHOOT_PLAYER e show ?thesis by (simp add: perform_def)
next
  case MOVE_LEFT
  from get_new_position_in_bounds [OF r e, of "- 1" 0] obtain q where
    "get_new_position t ex ey (- 1) 0 = Inr q" "in_bounds t q" by blast
  with MOVE_LEFT show ?thesis by (simp add: perform_def)
next
  case MOVE_RIGHT
  from get_new_position_in_bounds [OF r e, of 1 0] obtain q where
    "get_new_position t ex ey 1 0 = Inr q" "in_bounds t q" by blast
  with MOVE_RIGHT show ?thesis by (simp add: perform_def)
next
  case MOVE_UP
  from get_new_position_in_bounds [OF r e, of 0 "- 1"] obtain q where
    "get_new_position t ex ey 0 (- 1) = Inr q" "in_bounds t q" by blast
  with MOVE_UP show ?thesis by (simp add: perform_def)
next
  case MOVE_DOWN
  from get_new_position_in_bounds [OF r e, of 0 1] obtain q where
    "get_new_position t ex ey 0 1 = Inr q" "in_bounds t q" by blast
  with MOVE_DOWN show ?thesis by (simp add: perform_def)
qed (use e in \<open>simp_all add: perform_def\<close>)

lemma enemy_turn_total:
  assumes r: "rectangular t" and d: "decides policy" and p: "in_bounds t player"
    and i: "i < length (enemy_positions s)"
    and es: "list_all (in_bounds t) (enemy_positions s)"
  shows "\<exists>s'. enemy_turn t policy player i s = Inr s'
           \<and> list_all (in_bounds t) (enemy_positions s')"
proof -
  obtain ex ey where e: "enemy_positions s ! i = (ex, ey)"
    by (cases "enemy_positions s ! i")
  have ix: "py_index (enemy_positions s) (int i) = Inr (ex, ey)"
    using i e by (simp add: py_index_def)
  from es i e have eb: "in_bounds t (ex, ey)"
    by (metis list_all_length)
  have "\<exists>inputs. network_inputs t i (fst player) (snd player) s = Inr inputs"
  proof -
    from r have "game_grid_width t \<noteq> 0" "game_grid_height t \<noteq> 0"
      unfolding rectangular_def by linarith+
    moreover from i have "length (enemy_positions s) \<noteq> 0" by linarith
    ultimately show ?thesis by (simp add: network_inputs_def)
  qed
  then obtain inputs where
    ni: "network_inputs t i (fst player) (snd player) s = Inr inputs" ..
  from d obtain a where a: "decide (policy inputs) = Inr a"
    unfolding decides_def by blast
  from p have pb: "in_bounds t (fst player, snd player)" by simp
  from perform_total [OF r eb pb, of a "player_health s"] obtain q h' where
    q: "perform t a ex ey (fst player) (snd player) (player_health s) = Inr (q, h')"
      "in_bounds t q" by blast
  have "list_all (in_bounds t) ((enemy_positions s)[i := q])"
    using es q(2) unfolding list_all_iff by (auto dest: set_update_subset_insert [THEN subsetD])
  then show ?thesis
    by (simp add: enemy_turn_def ix ni a q(1))
qed

lemma enemy_loop_total:
  assumes r: "rectangular t" and d: "decides policy" and p: "in_bounds t player"
    and i: "\<forall>i \<in> set is. i < length (enemy_positions s)"
    and es: "list_all (in_bounds t) (enemy_positions s)"
  shows "\<exists>s'. enemy_loop t policy player is s = Inr s'
           \<and> list_all (in_bounds t) (enemy_positions s')"
  using i es
proof (induction "is" arbitrary: s)
  case Nil
  then show ?case by simp
next
  case (Cons i "is")
  from Cons.prems have "i < length (enemy_positions s)" by simp
  from enemy_turn_total [OF r d p this Cons.prems(2)] obtain s1 where
    s1: "enemy_turn t policy player i s = Inr s1" "list_all (in_bounds t) (enemy_positions s1)"
    by blast
  from enemy_turn_effect(3) [OF s1(1)] Cons.prems(1)
  have "\<forall>i \<in> set is. i < length (enemy_positions s1)" by simp
  from Cons.IH [OF this s1(2)] s1 show ?case by simp
qed

lemma moves_loop_total:
  assumes r: "rectangular t" and d: "decides policy"
    and m: "trajectory_ok t moves"
    and es: "list_all (in_bounds t) (enemy_positions s)"
  shows "\<exists>out s'. moves_loop t policy moves s = Inr (out, s')"
  using m es
proof (induction moves arbitrary: s)
  case Nil
  then show ?case by simp
next
  case (Cons p moves)
  obtain px py where p: "p = (px, py)" by (cases p)
  define s1 where "s1 = s \<lparr> moves_made := moves_made s + 1 \<rparr>"
  show ?case
  proof (cases "p = escape_coordinate t")
    case True
    with p show ?thesis by (simp add: escape_coordinate_def)
  next
    case False
    with Cons.prems(1) have pb: "in_bounds t p" and m': "trajectory_ok t moves"
      by (simp_all add: trajectory_ok_def)
    have es1: "list_all (in_bounds t) (enemy_positions s1)"
      using Cons.prems(2) by (simp add: s1_def)
    have "\<forall>i \<in> set [0 ..< length (enemy_positions s1)]. i < length (enemy_positions s1)"
      by simp
    from enemy_loop_total [OF r d pb this es1] obtain s2 where
      s2: "enemy_loop t policy p [0 ..< length (enemy_positions s1)] s1 = Inr s2"
        "list_all (in_bounds t) (enemy_positions s2)" by blast
    from Cons.IH [OF m' s2(2)] obtain out s' where
      "moves_loop t policy moves s2 = Inr (out, s')" by blast
    with s2(1) False p show ?thesis
      by (simp add: escape_coordinate_def s1_def [symmetric] Let_def)
  qed
qed

subsection \<open>Example runs\<close>

lemma decide_stand_policy: "decide (stand_policy inputs) = Inr STAND_STILL"
  by (simp add: decide_def stand_policy_def select_decision_def EnemyAction_of_def)

lemma decide_hit_policy: "decide (hit_policy inputs) = Inr HIT_PLAYER"
  by (simp add: decide_def hit_policy_def select_decision_def EnemyAction_of_def)

lemma level_e_constructed: "Trainer_init [[2, 0, 0], [0, 3, 0], [0, 0, 0]] = Inr level_e"
  by (simp add: Trainer_init_def level_e_def py_index_def find_start_positions_def
      PLAYER_CELL_STATE_CODE_def ENEMY_CELL_STATE_CODE_def)

lemma level_f_constructed: "Trainer_init [[2, 0, 0], [0, 3, 3], [0, 0, 0]] = Inr level_f"
  by (simp add: Trainer_init_def level_f_def py_index_def find_start_positions_def
      PLAYER_CELL_STATE_CODE_def ENEMY_CELL_STATE_CODE_def)

lemma upt_2: "[0 ..< 2] = [0, Suc 0]"
  by (simp add: upt_rec)

text \<open>The example of the specification, run on a level with one enemy.\<close>

lemma stand_run:
  "play_trajectory level_e stand_policy [] [(1, 0), (2, 0)] =
     Inr (MoveLimit,
          \<lparr> player_health = 100, enemy_positions = [(1, 1)], moves_made = 2,
            changes = [Proximity (distance_to_player 1 0 1 1),
                       Proximity (distance_to_player 2 0 1 1),
                       Terminal (- 9604)] \<rparr>)"
  by (simp add: play_trajectory_def initial_episode_def level_e_def enemy_turn_def
      py_index_def network_inputs_def decide_stand_policy perform_def
      terminal_adjustment_def PLAYER_STARTING_HEALTH_def MAX_PLAYER_MOVES_def)

text \<open>Two enemies that hit: the first step costs 50, in the second step the first
  enemy brings the health to 0 and the second enemy does not act; the third move is
  not played.\<close>

lemma hit_run:
  "moves_loop level_f hit_policy [(0, 1), (1, 1), (0, 0)] (initial_episode level_f []) =
     Inr (Defeated,
          \<lparr> player_health = 0, enemy_positions = [(1, 1), (2, 1)], moves_made = 2,
            changes = [Proximity (distance_to_player 0 1 1 1),
                       Proximity (distance_to_player 0 1 2 1),
                       Proximity (distance_to_player 1 1 1 1)] \<rparr>)"
  by (simp add: initial_episode_def level_f_def enemy_turn_def upt_2
      py_index_def network_inputs_def decide_hit_policy perform_def hit_player_def
      distance_le_1 PLAYER_STARTING_HEALTH_def ENEMY_HIT_DAMAGE_def)

lemma escape_run:
  "moves_loop level_f stand_policy [(2, 2), (2, 3), (0, 0)] (initial_episode level_f []) =
     Inr (Escaped,
          \<lparr> player_health = 100, enemy_positions = [(1, 1), (2, 1)], moves_made = 2,
            changes = [Proximity (distance_to_player 2 2 1 1),
                       Proximity (distance_to_player 2 2 2 1)] \<rparr>)"
  by (simp add: initial_episode_def level_f_def enemy_turn_def upt_2
      py_index_def network_inputs_def decide_stand_policy perform_def
      PLAYER_STARTING_HEALTH_def)

lemma well_formed_level_f: "well_formed level_f"
  by (simp add: well_formed_def rectangular_def in_bounds_def level_f_def)

lemma decides_hit_policy: "decides hit_policy"
  by (simp add: decides_def decide_hit_policy)

lemma hit_last_turn:
  "enemy_turn level_f hit_policy (1, 1) 0
     \<lparr> player_health = 50, enemy_positions = [(1, 1), (2, 1)], moves_made = 2,
       changes = [Proximity (distance_to_player 0 1 1 1),
                  Proximity (distance_to_player 0 1 2 1)] \<rparr>
   = Inr \<lparr> player_health = 0, enemy_positions = [(1, 1), (2, 1)], moves_made = 2,
           changes = [Proximity (distance_to_player 0 1 1 1),
                      Proximity (distance_to_player 0 1 2 1),
                      Proximity (distance_to_player 1 1 1 1)] \<rparr>"
  by (simp add: level_f_def enemy_turn_def py_index_def network_inputs_def
      decide_hit_policy perform_def hit_player_def distance_le_1 ENEMY_HIT_DAMAGE_def)

subsection \<open>The fitness calculation after a trajectory\<close>

lemma play_trajectory_effect:
  assumes "play_trajectory t policy cs moves = Inr (out, s)"
  shows "\<exists>s0. moves_loop t policy moves (initial_episode t cs) = Inr (out, s0)
           \<and> s = s0 \<lparr> changes := changes s0 @ [Terminal (terminal_adjustment s0)] \<rparr>"
  using assms by (auto simp: play_trajectory_def bind_e_eq_Inr)

lemma initial_episode_simps [simp]:
  "player_health (initial_episode t cs) = PLAYER_STARTING_HEALTH"
  "enemy_positions (initial_episode t cs) = enemy_start_positions t"
  "moves_made (initial_episode t cs) = 0"
  "changes (initial_episode t cs) = cs"
  by (simp_all add: initial_episode_def)

text \<open>An enemy that stands still changes nothing but the record of the fitness.\<close>

lemma enemy_turn_stand:
  assumes st: "\<forall>inputs. decide (policy inputs) = Inr STAND_STILL"
    and wh: "game_grid_width t \<noteq> 0" "game_grid_height t \<noteq> 0"
    and i: "i < length (enemy_positions s)"
  shows "\<exists>d. enemy_turn t policy player i s = Inr (s \<lparr> changes := changes s @ [Proximity d] \<rparr>)"
proof -
  obtain ex ey where e: "enemy_positions s ! i = (ex, ey)"
    by (cases "enemy_positions s ! i")
  have ix: "py_index (enemy_positions s) (int i) = Inr (ex, ey)"
    using i e by (simp add: py_index_def)
  from i have "length (enemy_positions s) \<noteq> 0" by linarith
  with wh obtain inputs where
    ni: "network_inputs t i (fst player) (snd player) s = Inr inputs"
    by (simp add: network_inputs_def)
  have up: "(enemy_positions s)[i := (ex, ey)] = enemy_positions s"
    using e [symmetric] by simp
  have "enemy_turn t policy player i s
          = Inr (s \<lparr> changes := changes s
                   @ [Proximity (distance_to_player (fst player) (snd player) ex ey)] \<rparr>)"
    using st by (simp add: enemy_turn_def ix ni perform_def up)
  then show ?thesis ..
qed

lemma enemy_loop_stand:
  assumes st: "\<forall>inputs. decide (policy inputs) = Inr STAND_STILL"
    and wh: "game_grid_width t \<noteq> 0" "game_grid_height t \<noteq> 0"
    and i: "\<forall>i \<in> set is. i < length (enemy_positions s)"
  shows "\<exists>ext. enemy_loop t policy player is s = Inr (s \<lparr> changes := changes s @ ext \<rparr>)
           \<and> Shaping \<notin> set ext \<and> filter is_terminal ext = []"
  using i
proof (induction "is" arbitrary: s)
  case Nil
  show ?case by (intro exI [of _ "[]"]) simp
next
  case (Cons i "is")
  from Cons.prems have "i < length (enemy_positions s)" by simp
  from enemy_turn_stand [OF st wh this, of player] obtain d where
    d: "enemy_turn t policy player i s = Inr (s \<lparr> changes := changes s @ [Proximity d] \<rparr>)" ..
  define s1 where "s1 = s \<lparr> changes := changes s @ [Proximity d] \<rparr>"
  have "\<forall>i \<in> set is. i < length (enemy_positions s1)"
    using Cons.prems by (simp add: s1_def)
  from Cons.IH [OF this] obtain ext where
    ext: "enemy_loop t policy player is s1 = Inr (s1 \<lparr> changes := changes s1 @ ext \<rparr>)"
      "Shaping \<notin> set ext" "filter is_terminal ext = []" by blast
  show ?case
  proof (cases "player_health s1 \<le> 0")
    case True
    then have "enemy_loop t policy player (i # is) s = Inr (s \<lparr> changes := changes s @ [Proximity d] \<rparr>)"
      using d by (simp add: s1_def)
    then show ?thesis by (intro exI [of _ "[Proximity d]"]) simp
  next
    case False
    then have "enemy_loop t policy player (i # is) s
                = Inr (s \<lparr> changes := changes s @ (Proximity d # ext) \<rparr>)"
      using d ext(1) by (simp add: s1_def)
    with ext(2,3) show ?thesis by (intro exI [of _ "Proximity d # ext"]) simp
  qed
qed

lemma stand_example:
  assumes st: "\<forall>inputs. decide (policy inputs) = Inr STAND_STILL"
    and w: "game_grid_width t = 3" and h: "game_grid_height t = 3"
  shows "\<exists>ext. moves_loop t policy [(1, 0), (2, 0)] (initial_episode t [])
            = Inr (MoveLimit, (initial_episode t []) \<lparr> moves_made := 2, changes := ext \<rparr>)
           \<and> Shaping \<notin> set ext \<and> filter is_terminal ext = []"
proof -
  have wh: "game_grid_width t \<noteq> 0" "game_grid_height t \<noteq> 0" using w h by simp_all
  define s0 where "s0 = initial_episode t []"
  define s1 where "s1 = s0 \<lparr> moves_made := 1 \<rparr>"
  have "\<forall>i \<in> set [0 ..< length (enemy_positions s1)]. i < length (enemy_positions s1)"
    by simp
  from enemy_loop_stand [OF st wh this, of "(1, 0)"] obtain e1 where
    e1: "enemy_loop t policy (1, 0) [0 ..< length (enemy_positions s1)] s1
           = Inr (s1 \<lparr> changes := changes s1 @ e1 \<rparr>)"
      "Shaping \<notin> set e1" "filter is_terminal e1 = []" by blast
  define s2 where "s2 = s1 \<lparr> changes := e1 \<rparr>"
  have s2: "s1 \<lparr> changes := changes s1 @ e1 \<rparr> = s2"
    by (simp add: s2_def s1_def s0_def)
  define s3 where "s3 = s2 \<lparr> moves_made := 2 \<rparr>"
  have "\<forall>i \<in> set [0 ..< length (enemy_positions s3)]. i < length (enemy_positions s3)"
    by simp
  from enemy_loop_stand [OF st wh this, of "(2, 0)"] obtain e2 where
    e2: "enemy_loop t policy (2, 0) [0 ..< length (enemy_positions s3)] s3
           = Inr (s3 \<lparr> changes := changes s3 @ e2 \<rparr>)"
      "Shaping \<notin> set e2" "filter is_terminal e2 = []" by blast
  have h2: "player_health s2 = 100" "moves_made s1 = 1" "moves_made s0 = 0"
    by (simp_all add: s2_def s1_def s0_def PLAYER_STARTING_HEALTH_def)
  have step1: "moves_loop t policy [(1, 0), (2, 0)] s0 = moves_loop t policy [(2, 0)] s2"
    using e1(1) h2 w h unfolding s2 by (simp add: s1_def [symmetric])
  have step2: "moves_loop t policy [(2, 0)] s2
                 = Inr (MoveLimit, s3 \<lparr> changes := changes s3 @ e2 \<rparr>)"
    using e2(1) h2 w h by (simp add: s3_def s2_def s1_def)
  have fin: "s3 \<lparr> changes := changes s3 @ e2 \<rparr> = s0 \<lparr> moves_made := 2, changes := e1 @ e2 \<rparr>"
    by (simp add: s3_def s2_def s1_def)
  show ?thesis
    using step1 step2 e1(2,3) e2(2,3) unfolding fin s0_def
    by (intro exI [of _ "e1 @ e2"]) simp
qed

text \<open>
  C5. A trajectory that is played to its end changes the fitness by exactly one
  terminal adjustment, the last change of the trajectory: with the final health \<open>h\<close>
  and \<open>m\<close> moves made, \<open>(MAX_PLAYER_MOVES - m)\<^sup>2 + (PLAYER_STARTING_HEALTH - h)\<close> is
  subtracted when \<open>h > 0\<close> and added otherwise. On every level of width 3 and height 3,
  under a policy that always stands still (which never reads the grid), the
  trajectory \<open>[(1, 0), (2, 0)]\<close> ends at the end of its moves with the terminal
  adjustment \<open>-9604\<close>, and no \<open>+0.1\<close> is recorded.
\<close>

theorem terminal_adjustment_once:
  "(play_trajectory t policy cs moves = Inr (out, s) \<longrightarrow>
      (\<exists>mid. changes s = cs @ mid
                 @ [Terminal (if 0 < player_health s
                      then - ((MAX_PLAYER_MOVES - moves_made s)\<^sup>2
                               + (PLAYER_STARTING_HEALTH - player_health s))
                      else (MAX_PLAYER_MOVES - moves_made s)\<^sup>2
                               + (PLAYER_STARTING_HEALTH - player_health s))]
         \<and> filter is_terminal mid = []))
   \<and> (game_grid_width t = 3 \<and> game_grid_height t = 3
        \<and> (\<forall>inputs. decide (policy inputs) = Inr STAND_STILL) \<longrightarrow>
      (\<exists>s. play_trajectory t policy [] [(1, 0), (2, 0)] = Inr (MoveLimit, s)
          \<and> last (changes s) = Terminal (- 9604)
          \<and> filter is_terminal (changes s) = [Terminal (- 9604)]
          \<and> Shaping \<notin> set (changes s)))"
proof (intro conjI impI)
  assume "play_trajectory t policy cs moves = Inr (out, s)"
  from play_trajectory_effect [OF this] obtain s0 where
    s0: "moves_loop t policy moves (initial_episode t cs) = Inr (out, s0)"
      "s = s0 \<lparr> changes := changes s0 @ [Terminal (terminal_adjustment s0)] \<rparr>" by blast
  have "0 < player_health (initial_episode t cs)"
    by (simp add: PLAYER_STARTING_HEALTH_def)
  from moves_loop_effect [OF s0(1) this] obtain mid where
    "changes s0 = cs @ mid" "filter is_terminal mid = []" by auto
  with s0(2) show "\<exists>mid. changes s = cs @ mid
                 @ [Terminal (if 0 < player_health s
                      then - ((MAX_PLAYER_MOVES - moves_made s)\<^sup>2
                               + (PLAYER_STARTING_HEALTH - player_health s))
                      else (MAX_PLAYER_MOVES - moves_made s)\<^sup>2
                               + (PLAYER_STARTING_HEALTH - player_health s))]
         \<and> filter is_terminal mid = []"
    by (intro exI [of _ mid]) (simp add: terminal_adjustment_def)
next
  assume a: "game_grid_width t = 3 \<and> game_grid_height t = 3
        \<and> (\<forall>inputs. decide (policy inputs) = Inr STAND_STILL)"
  then have st: "\<forall>inputs. decide (policy inputs) = Inr STAND_STILL"
    and w: "game_grid_width t = 3" and h: "game_grid_height t = 3" by simp_all
  from stand_example [OF st w h] obtain ext where
    ext: "moves_loop t policy [(1, 0), (2, 0)] (initial_episode t [])
            = Inr (MoveLimit, (initial_episode t []) \<lparr> moves_made := 2, changes := ext \<rparr>)"
      "Shaping \<notin> set ext" "filter is_terminal ext = []" by blast
  have ta: "terminal_adjustment ((initial_episode t []) \<lparr> moves_made := 2, changes := ext \<rparr>)
              = - 9604"
    by (simp add: terminal_adjustment_def PLAYER_STARTING_HEALTH_def MAX_PLAYER_MOVES_def)
  show "\<exists>s. play_trajectory t policy [] [(1, 0), (2, 0)] = Inr (MoveLimit, s)
          \<and> last (changes s) = Terminal (- 9604)
          \<and> filter is_terminal (changes s) = [Terminal (- 9604)]
          \<and> Shaping \<notin> set (changes s)"
    unfolding play_trajectory_def ext(1) using ext(2,3) by (simp add: ta)
qed

theorem terminal_adjustment_once_witness:
  "play_trajectory level_e stand_policy [] [(1, 0), (2, 0)] =
     Inr (MoveLimit,
          \<lparr> player_health = 100, enemy_positions = [(1, 1)], moves_made = 2,
            changes = [Proximity (distance_to_player 1 0 1 1),
                       Proximity (distance_to_player 2 0 1 1),
                       Terminal (- 9604)] \<rparr>)
   \<and> game_grid_width level_e = 3 \<and> game_grid_height level_e = 3
   \<and> decide (stand_policy []) = Inr STAND_STILL
   \<and> (\<exists>mid. [Proximity (distance_to_player 1 0 1 1),
              Proximity (distance_to_player 2 0 1 1), Terminal (- 9604)]
               = mid @ [Terminal (- ((MAX_PLAYER_MOVES - 2)\<^sup>2 + (PLAYER_STARTING_HEALTH - 100)))]
            \<and> filter is_terminal mid = [])
   \<and> (\<exists>s. play_trajectory level_e stand_policy [] [(1, 0), (2, 0)] = Inr (MoveLimit, s)
          \<and> last (changes s) = Terminal (- 9604)
          \<and> filter is_terminal (changes s) = [Terminal (- 9604)]
          \<and> Shaping \<notin> set (changes s))"
proof -
  have w: "game_grid_width level_e = 3" and h: "game_grid_height level_e = 3"
    by (simp_all add: level_e_def)
  have st: "\<forall>inputs. decide (stand_policy inputs) = Inr STAND_STILL"
    by (simp add: decide_stand_policy)
  note inst = terminal_adjustment_once [of level_e stand_policy "[]" "[(1, 0), (2, 0)]" MoveLimit
      "\<lparr> player_health = 100, enemy_positions = [(1, 1)], moves_made = 2,
            changes = [Proximity (distance_to_player 1 0 1 1),
                       Proximity (distance_to_player 2 0 1 1),
                       Terminal (- 9604)] \<rparr>"]
  from inst stand_run have 1: "\<exists>mid. [Proximity (distance_to_player 1 0 1 1),
              Proximity (distance_to_player 2 0 1 1), Terminal (- 9604)]
               = mid @ [Terminal (- ((MAX_PLAYER_MOVES - 2)\<^sup>2 + (PLAYER_STARTING_HEALTH - 100)))]
            \<and> filter is_terminal mid = []"
    by simp
  from inst w h st have 2: "\<exists>s. play_trajectory level_e stand_policy [] [(1, 0), (2, 0)] = Inr (MoveLimit, s)
          \<and> last (changes s) = Terminal (- 9604)
          \<and> filter is_terminal (changes s) = [Terminal (- 9604)]
          \<and> Shaping \<notin> set (changes s)"
    by blast
  from stand_run w h st 1 2 show ?thesis by blast
qed

subsection \<open>The three ways an episode ends\<close>

text \<open>
  C9. For a trajectory of at most \<open>MAX_PLAYER_MOVES\<close> positions, the loop over the
  moves is a total function, so it ends; it plays \<open>k\<close> moves, at most the length of
  the trajectory and so at most \<open>MAX_PLAYER_MOVES\<close>. On a well-formed level, with a
  policy whose decision is always an action and a trajectory inside the grid (or at
  the escape coordinate), it raises nothing. Its result carries exactly one of three
  outcomes, and no earlier position is the escape coordinate:
  \<^item> Escaped: position \<open>k\<close> is the escape coordinate, and the enemies acted in the
    \<open>k - 1\<close> steps before it only (the test comes before any action of step \<open>k\<close>);
  \<^item> Defeated: the health is not positive, every enemy acted in the \<open>k - 1\<close> steps
    before, and in step \<open>k\<close> at least one and at most all of them;
  \<^item> MoveLimit: all positions were played, by every enemy, and the health is positive.

  The last three conjuncts are the steps themselves: at the escape coordinate the
  loop is left at once, whatever moves follow; an enemy whose action leaves a health
  that is not positive ends the loop over the enemies, whoever follows; and such a
  step ends the episode, whatever moves follow.
\<close>

theorem episode_outcome:
  assumes len: "int (length moves) \<le> MAX_PLAYER_MOVES"
  shows
   "(well_formed t \<and> decides policy \<and> trajectory_ok t moves \<longrightarrow>
       (\<exists>out s. moves_loop t policy moves (initial_episode t cs) = Inr (out, s)))
    \<and> (moves_loop t policy moves (initial_episode t cs) = Inr (out, s) \<longrightarrow>
       (\<exists>k ext. moves_made s = int k \<and> k \<le> length moves \<and> moves_made s \<le> MAX_PLAYER_MOVES
          \<and> changes s = cs @ ext
          \<and> (\<forall>j. Suc j < k \<longrightarrow> moves ! j \<noteq> escape_coordinate t)
          \<and> (out = Escaped \<longrightarrow> 0 < k \<and> moves ! (k - 1) = escape_coordinate t
                \<and> 0 < player_health s
                \<and> enemy_actions ext = (k - 1) * length (enemy_start_positions t))
          \<and> (out = Defeated \<longrightarrow> 0 < k \<and> moves ! (k - 1) \<noteq> escape_coordinate t
                \<and> player_health s \<le> 0
                \<and> (k - 1) * length (enemy_start_positions t) < enemy_actions ext
                \<and> enemy_actions ext \<le> k * length (enemy_start_positions t))
          \<and> (out = MoveLimit \<longrightarrow> k = length moves
                \<and> (0 < k \<longrightarrow> moves ! (k - 1) \<noteq> escape_coordinate t)
                \<and> 0 < player_health s
                \<and> enemy_actions ext = k * length (enemy_start_positions t))))
    \<and> moves_loop t policy (escape_coordinate t # rest) s0
         = Inr (Escaped, s0 \<lparr> moves_made := moves_made s0 + 1 \<rparr>)
    \<and> (enemy_turn t policy p i s0 = Inr s1 \<and> player_health s1 \<le> 0 \<longrightarrow>
         enemy_loop t policy p (i # others) s0 = Inr s1)
    \<and> (p \<noteq> escape_coordinate t
         \<and> enemy_loop t policy p [0 ..< length (enemy_positions s0)]
              (s0 \<lparr> moves_made := moves_made s0 + 1 \<rparr>) = Inr s2
         \<and> player_health s2 \<le> 0 \<longrightarrow>
         moves_loop t policy (p # rest) s0 = Inr (Defeated, s2))"
proof (intro conjI impI)
  assume "well_formed t \<and> decides policy \<and> trajectory_ok t moves"
  then have "rectangular t" "decides policy" "trajectory_ok t moves"
    "list_all (in_bounds t) (enemy_positions (initial_episode t cs))"
    by (simp_all add: well_formed_def)
  then show "\<exists>out s. moves_loop t policy moves (initial_episode t cs) = Inr (out, s)"
    by (rule moves_loop_total)
next
  assume run: "moves_loop t policy moves (initial_episode t cs) = Inr (out, s)"
  have "0 < player_health (initial_episode t cs)"
    by (simp add: PLAYER_STARTING_HEALTH_def)
  from moves_loop_effect [OF run this] obtain k ext where
    k: "moves_made s = int k" "k \<le> length moves" "changes s = cs @ ext"
      "\<forall>j. Suc j < k \<longrightarrow> moves ! j \<noteq> escape_coordinate t"
    and o: "out = Escaped \<longrightarrow> 0 < k \<and> moves ! (k - 1) = escape_coordinate t
                \<and> 0 < player_health s
                \<and> enemy_actions ext = (k - 1) * length (enemy_start_positions t)"
     "out = Defeated \<longrightarrow> 0 < k \<and> moves ! (k - 1) \<noteq> escape_coordinate t
                \<and> player_health s \<le> 0
                \<and> (k - 1) * length (enemy_start_positions t) < enemy_actions ext
                \<and> enemy_actions ext \<le> k * length (enemy_start_positions t)"
     "out = MoveLimit \<longrightarrow> k = length moves
                \<and> (0 < k \<longrightarrow> moves ! (k - 1) \<noteq> escape_coordinate t)
                \<and> 0 < player_health s
                \<and> enemy_actions ext = k * length (enemy_start_positions t)"
    unfolding initial_episode_simps by auto
  from k(1,2) len have "moves_made s \<le> MAX_PLAYER_MOVES" by simp
  with k o show "\<exists>k ext. moves_made s = int k \<and> k \<le> length moves \<and> moves_made s \<le> MAX_PLAYER_MOVES
          \<and> changes s = cs @ ext
          \<and> (\<forall>j. Suc j < k \<longrightarrow> moves ! j \<noteq> escape_coordinate t)
          \<and> (out = Escaped \<longrightarrow> 0 < k \<and> moves ! (k - 1) = escape_coordinate t
                \<and> 0 < player_health s
                \<and> enemy_actions ext = (k - 1) * length (enemy_start_positions t))
          \<and> (out = Defeated \<longrightarrow> 0 < k \<and> moves ! (k - 1) \<noteq> escape_coordinate t
                \<and> player_health s \<le> 0
                \<and> (k - 1) * length (enemy_start_positions t) < enemy_actions ext
                \<and> enemy_actions ext \<le> k * length (enemy_start_positions t))
          \<and> (out = MoveLimit \<longrightarrow> k = length moves
                \<and> (0 < k \<longrightarrow> moves ! (k - 1) \<noteq> escape_coordinate t)
                \<and> 0 < player_health s
                \<and> enemy_actions ext = k * length (enemy_start_positions t))"
    by blast
next
  show "moves_loop t policy (escape_coordinate t # rest) s0
         = Inr (Escaped, s0 \<lparr> moves_made := moves_made s0 + 1 \<rparr>)"
    by (simp add: escape_coordinate_def)
next
  assume "enemy_turn t policy p i s0 = Inr s1 \<and> player_health s1 \<le> 0"
  then show "enemy_loop t policy p (i # others) s0 = Inr s1" by simp
next
  assume a: "p \<noteq> escape_coordinate t
         \<and> enemy_loop t policy p [0 ..< length (enemy_positions s0)]
              (s0 \<lparr> moves_made := moves_made s0 + 1 \<rparr>) = Inr s2
         \<and> player_health s2 \<le> 0"
  obtain px py where p: "p = (px, py)" by (cases p)
  with a show "moves_loop t policy (p # rest) s0 = Inr (Defeated, s2)"
    by (auto simp: escape_coordinate_def Let_def)
qed

theorem episode_outcome_witness:
  "int (length [(0, 1), (1, 1), (0, 0) :: int \<times> int]) \<le> MAX_PLAYER_MOVES
   \<and> well_formed level_f \<and> decides hit_policy
   \<and> trajectory_ok level_f [(0, 1), (1, 1), (0, 0)]
   \<and> moves_loop level_f hit_policy [(0, 1), (1, 1), (0, 0)] (initial_episode level_f []) =
       Inr (Defeated,
            \<lparr> player_health = 0, enemy_positions = [(1, 1), (2, 1)], moves_made = 2,
              changes = [Proximity (distance_to_player 0 1 1 1),
                         Proximity (distance_to_player 0 1 2 1),
                         Proximity (distance_to_player 1 1 1 1)] \<rparr>)
   \<and> (\<exists>out s. moves_loop level_f hit_policy [(0, 1), (1, 1), (0, 0)]
                 (initial_episode level_f []) = Inr (out, s))
   \<and> (\<exists>k ext. (2::int) = int k \<and> k \<le> 3
         \<and> [Proximity (distance_to_player 0 1 1 1), Proximity (distance_to_player 0 1 2 1),
             Proximity (distance_to_player 1 1 1 1)] = ext
         \<and> [(0, 1), (1, 1), (0, 0)] ! (k - 1) \<noteq> escape_coordinate level_f
         \<and> (k - 1) * 2 < enemy_actions ext \<and> enemy_actions ext \<le> k * 2)
   \<and> enemy_loop level_f hit_policy (1, 1) [0, 1]
        \<lparr> player_health = 50, enemy_positions = [(1, 1), (2, 1)], moves_made = 2,
          changes = [Proximity (distance_to_player 0 1 1 1),
                     Proximity (distance_to_player 0 1 2 1)] \<rparr>
      = Inr \<lparr> player_health = 0, enemy_positions = [(1, 1), (2, 1)], moves_made = 2,
              changes = [Proximity (distance_to_player 0 1 1 1),
                         Proximity (distance_to_player 0 1 2 1),
                         Proximity (distance_to_player 1 1 1 1)] \<rparr>
   \<and> moves_loop level_f stand_policy [(2, 3), (0, 0)] (initial_episode level_f [])
      = Inr (Escaped, (initial_episode level_f []) \<lparr> moves_made := 1 \<rparr>)"
proof -
  define mid where "mid = \<lparr> player_health = 50, enemy_positions = [(1, 1), (2, 1)],
       moves_made = 2,
       changes = [Proximity (distance_to_player 0 1 1 1),
                  Proximity (distance_to_player 0 1 2 1)] \<rparr>"
  define fin where "fin = \<lparr> player_health = 0, enemy_positions = [(1, 1), (2, 1)],
       moves_made = 2,
       changes = [Proximity (distance_to_player 0 1 1 1),
                  Proximity (distance_to_player 0 1 2 1),
                  Proximity (distance_to_player 1 1 1 1)] \<rparr>"
  have len: "int (length [(0, 1), (1, 1), (0, 0) :: int \<times> int]) \<le> MAX_PLAYER_MOVES"
    by (simp add: MAX_PLAYER_MOVES_def)
  have tr: "trajectory_ok level_f [(0, 1), (1, 1), (0, 0)]"
    by (simp add: trajectory_ok_def in_bounds_def level_f_def)
  have run: "moves_loop level_f hit_policy [(0, 1), (1, 1), (0, 0)] (initial_episode level_f [])
              = Inr (Defeated, fin)"
    unfolding fin_def by (rule hit_run)
  have turn: "enemy_turn level_f hit_policy (1, 1) 0 mid = Inr fin"
    unfolding mid_def fin_def by (rule hit_last_turn)
  have dead: "player_health fin \<le> 0" by (simp add: fin_def)
  note inst = episode_outcome [OF len, where t = level_f and policy = hit_policy
      and cs = "[]" and out = Defeated and s = fin and p = "(1, 1)" and i = 0
      and ?s0.0 = mid and ?s1.0 = fin and others = "[1]"]
  from inst well_formed_level_f decides_hit_policy tr
  have 1: "\<exists>out s. moves_loop level_f hit_policy [(0, 1), (1, 1), (0, 0)]
                 (initial_episode level_f []) = Inr (out, s)"
    by blast
  from inst run obtain k ext where k: "moves_made fin = int k" "k \<le> length [(0, 1), (1, 1), (0, 0) :: int \<times> int]"
      "changes fin = [] @ ext"
      "[(0, 1), (1, 1), (0, 0)] ! (k - 1) \<noteq> escape_coordinate level_f"
      "(k - 1) * length (enemy_start_positions level_f) < enemy_actions ext"
      "enemy_actions ext \<le> k * length (enemy_start_positions level_f)"
    by blast
  then have 2: "\<exists>k ext. (2::int) = int k \<and> k \<le> 3
         \<and> [Proximity (distance_to_player 0 1 1 1), Proximity (distance_to_player 0 1 2 1),
             Proximity (distance_to_player 1 1 1 1)] = ext
         \<and> [(0, 1), (1, 1), (0, 0)] ! (k - 1) \<noteq> escape_coordinate level_f
         \<and> (k - 1) * 2 < enemy_actions ext \<and> enemy_actions ext \<le> k * 2"
    by (intro exI [of _ k] exI [of _ ext]) (simp add: fin_def level_f_def)
  from inst turn dead have 3: "enemy_loop level_f hit_policy (1, 1) [0, 1] mid = Inr fin"
    by blast
  have 4: "moves_loop level_f stand_policy [(2, 3), (0, 0)] (initial_episode level_f [])
      = Inr (Escaped, (initial_episode level_f []) \<lparr> moves_made := 1 \<rparr>)"
    using episode_outcome [OF len, where t = level_f and policy = stand_policy
        and rest = "[(0, 0)]" and ?s0.0 = "initial_episode level_f []"]
    by (simp add: escape_coordinate_def level_f_def initial_episode_def)
  from len well_formed_level_f decides_hit_policy tr run 1 2 3 4
  show ?thesis unfolding mid_def fin_def by blast
qed

end
